theory Spec2Isabelle
  imports Complex_Main "HOL-Library.AList"
begin

section \<open>The data of \<open>ai_model_throughput_benchmark.py\<close>\<close>

text \<open>
  Python floats (times, durations, rates) are read as real numbers, Python ints as
  \<open>int\<close>. Exceptions are values of \<open>error\<close>; a function that can raise returns
  \<open>error + 'a\<close>, with \<open>Inl\<close> the exception.
\<close>

datatype error =
    InvalidValue          \<comment> \<open>\<open>errors.Config.InvalidValue\<close>\<close>
  | RunError string       \<comment> \<open>\<open>errors.Benchmarks.RunError\<close>\<close>
  | GetError string       \<comment> \<open>\<open>errors.Resource.GetError\<close>\<close>
  | OtherException string \<comment> \<open>any exception class that is not one of the above\<close>
  | ZeroDivisionError
  | StatisticsError
  | AssertionError

text \<open>The flags of the module. \<open>ai_max_requests\<close> defaults to \<open>None\<close>.\<close>

record flags =
  STARTING_REQUESTS :: int
  MAX_PARALLEL_REQUESTS :: "int option"
  TEST_DURATION :: int
  BURST_TIME :: real
  THROW_ON_CLIENT_ERRORS :: bool

definition QUEUE_WAIT_TIME :: real where
  "QUEUE_WAIT_TIME = 10 * 60"

definition FAIL_LATENCY :: real where
  "FAIL_LATENCY = 95"

text \<open>The dataclass \<open>ModelResponse\<close>.\<close>

record ModelResponse =
  start_time :: real
  end_time :: real
  response :: "string option"
  status :: int

text \<open>
  \<open>sample.Sample(metric, value, unit, metadata)\<close>, without the timestamp a sample
  takes when it is made. The metadata dictionary is an
  association list in insertion order; \<open>dict.update\<close> is \<open>AList.update\<close>, which
  replaces the value of a key that is present and appends a new key at the end.
\<close>

datatype mval = MInt int | MFloat real | MStr string | MBool bool

type_synonym metadata = "(string \<times> mval) list"

record sample =
  metric :: string
  sample_value :: real
  sample_unit :: string
  sample_metadata :: metadata

section \<open>\<open>CheckPrerequisites\<close>\<close>

text \<open>
  Python truth of an optional integer: \<open>None\<close> and \<open>0\<close> are false, every other
  integer is true.
\<close>

definition truthy :: "int option \<Rightarrow> bool" where
  "truthy v = (case v of None \<Rightarrow> False | Some n \<Rightarrow> n \<noteq> 0)"

definition CheckPrerequisites :: "flags \<Rightarrow> error + unit" where
  "CheckPrerequisites fl =
     (if truthy (MAX_PARALLEL_REQUESTS fl)
         \<and> the (MAX_PARALLEL_REQUESTS fl) < STARTING_REQUESTS fl
      then Inl InvalidValue
      else Inr ())"

section \<open>\<open>statistics.median\<close> and \<open>statistics.mean\<close>\<close>

text \<open>
  The two library functions as Python defines them: both raise \<open>StatisticsError\<close>
  on an empty list; the median sorts the data and takes the middle element, or the
  half-sum of the two middle elements when the length is even.
\<close>

definition median :: "real list \<Rightarrow> error + real" where
  "median data_in =
     (let data = sort data_in; n = length data in
      if n = 0 then Inl StatisticsError
      else if n mod 2 = 1 then Inr (data ! (n div 2))
      else Inr ((data ! (n div 2 - 1) + data ! (n div 2)) / 2))"

definition mean :: "real list \<Rightarrow> error + real" where
  "mean data_in =
     (if data_in = [] then Inl StatisticsError
      else Inr (sum_list data_in / real (length data_in)))"

section \<open>\<open>_AggregateResponses\<close>\<close>

definition duration :: "ModelResponse \<Rightarrow> real" where
  "duration r = end_time r - start_time r"

text \<open>The four \<open>metadata.update\<close> entries, in the order of the dictionary literal.\<close>

definition update_metadata :: "flags \<Rightarrow> int \<Rightarrow> real \<Rightarrow> metadata \<Rightarrow> metadata" where
  "update_metadata fl burst_requests effective_qps md =
     AList.update ''effective_qps'' (MFloat effective_qps)
       (AList.update ''burst_time'' (MFloat (BURST_TIME fl))
         (AList.update ''test_duration'' (MInt (TEST_DURATION fl))
           (AList.update ''parallel_requests'' (MInt burst_requests) md)))"

definition Sample :: "string \<Rightarrow> real \<Rightarrow> string \<Rightarrow> metadata \<Rightarrow> sample" where
  "Sample m v u md =
     \<lparr>metric = m, sample_value = v, sample_unit = u, sample_metadata = md\<rparr>"

text \<open>
  \<open>model_metadata\<close> is what \<open>model.GetResourceMetadata()\<close> returns. The division
  \<open>burst_requests / _BURST_TIME.value\<close> is a float division: it raises on a zero
  burst time, before any sample is built.
\<close>

text \<open>Python's float division: it raises on a zero divisor.\<close>

definition fdiv :: "real \<Rightarrow> real \<Rightarrow> error + real" where
  "fdiv a b = (if b = 0 then Inl ZeroDivisionError else Inr (a / b))"

definition AggregateResponses ::
  "flags \<Rightarrow> ModelResponse list \<Rightarrow> ModelResponse list \<Rightarrow> metadata \<Rightarrow> int
     \<Rightarrow> error + sample list" where
  "AggregateResponses fl responses failed_responses model_metadata burst_requests =
     (let successful_durations = map duration responses;
          failed_durations = map duration failed_responses
      in
      case fdiv (real_of_int burst_requests) (BURST_TIME fl) of
        Inl e \<Rightarrow> Inl e
      | Inr effective_qps \<Rightarrow>
         (let md = update_metadata fl burst_requests effective_qps model_metadata
          in
          (case (if failed_durations \<noteq> []
                 then (case median failed_durations of
                         Inl e \<Rightarrow> Inl e
                       | Inr m \<Rightarrow>
                           Inr [Sample ''failure_median_response_time'' m ''seconds'' md,
                                Sample ''num_failures'' (real (length failed_durations))
                                  ''count'' md])
                 else Inr [])
           of Inl e \<Rightarrow> Inl e
            | Inr samples \<Rightarrow>
               (if successful_durations = [] then Inr samples
                else
                  (case median successful_durations of
                     Inl e \<Rightarrow> Inl e
                   | Inr med \<Rightarrow>
                      (case mean successful_durations of
                         Inl e \<Rightarrow> Inl e
                       | Inr avg \<Rightarrow>
                          Inr (samples @
                            [Sample ''success_rate''
                               (real (length successful_durations)
                                  / real (length successful_durations
                                            + length failed_durations)
                                  * 100)
                               ''percent'' md,
                             Sample ''num_responses'' (real (length responses))
                               ''count'' md,
                             Sample ''median_response_time'' med ''seconds'' md,
                             Sample ''mean_response_time'' avg ''seconds'' md])))))))"

section \<open>\<open>TimePromptsForModel\<close>\<close>

text \<open>
  \<open>_SendPrompt\<close> calls \<open>ai_model.SendPrompt\<close>, logs each response and returns
  nothing. The argument \<open>model_send\<close> is what the call to the model does: it returns
  a list of responses or raises.
\<close>

definition SendPrompt :: "error + string list \<Rightarrow> error + string option" where
  "SendPrompt model_send =
     (case model_send of Inl e \<Rightarrow> Inl e | Inr model_responses \<Rightarrow> Inr None)"

text \<open>
  The worker, with the two readings of its clock and the queue as a list. The
  \<open>except\<close> clause names \<open>errors.Resource.GetError\<close> only: any other exception
  leaves the function before \<open>output_queue.put\<close>.
\<close>

definition TimePromptsForModel ::
  "error + string list \<Rightarrow> real \<Rightarrow> real \<Rightarrow> ModelResponse list
     \<Rightarrow> (error + unit) \<times> ModelResponse list" where
  "TimePromptsForModel model_send t_start t_end output_queue =
     (let status0 = 0; response0 = None in
      case (case SendPrompt model_send of
              Inr r \<Rightarrow> Inr (r, t_end, status0)
            | Inl (GetError ex) \<Rightarrow> Inr (response0, t_end, 1)
            | Inl e \<Rightarrow> Inl e)
      of Inl e \<Rightarrow> (Inl e, output_queue)
       | Inr (resp, end_t, st) \<Rightarrow>
           (Inr (),
            output_queue
              @ [\<lparr>start_time = t_start, end_time = end_t, response = resp, status = st\<rparr>]))"

section \<open>\<open>BurstRequestsOverTime\<close>\<close>

text \<open>
  The scheduler runs in one process and starts a process for each request. What the
  processes and the clock do is given by an environment: a started process runs
  \<open>TimePromptsForModel\<close> on the behaviour \<open>target\<close> of the model with its own two
  clock readings, and what it puts on the queue can be taken from the queue once the
  scheduler's clock has reached \<open>arrives\<close>. The clock does not go back: before its
  \<open>i\<close>-th reading \<open>cost i\<close> seconds pass (a negative value counts as zero), and a
  sleep of \<open>d\<close> seconds lets \<open>d\<close> seconds pass. Starting a process is taken to
  succeed.
\<close>

record worker_run =
  target :: "error + string list"
  worker_start :: real
  worker_end :: real
  arrives :: real

record environment =
  cost :: "nat \<Rightarrow> real"
  workers :: "nat \<Rightarrow> worker_run"

text \<open>
  The durations that \<open>BurstRequestsOverTime\<close> measures and compares with a bound: the
  locals \<open>process_startup_duration\<close>, \<open>queue_duration\<close> and \<open>process_duration\<close>.
\<close>

datatype measurement =
    StartupDuration real
  | QueueDuration real
  | ProcessDuration real

text \<open>
  The state of the scheduler's surroundings: the clock, the number of clock readings
  and of processes so far, the queue (each item with the time from which it can be
  taken) and the warnings logged by \<open>_EncounterClientError\<close>. The field \<open>measured\<close>
  keeps, in order, every value that the three locals above have taken; nothing reads
  it, it is there for the theorems about these values.
\<close>

record world =
  now :: real
  tick :: nat
  started :: nat
  queue :: "(real \<times> ModelResponse) list"
  warnings :: "string list"
  measured :: "measurement list"

definition time_time :: "environment \<Rightarrow> world \<Rightarrow> real \<times> world" where
  "time_time env w =
     (let t = now w + max 0 (cost env (tick w))
      in (t, w\<lparr>now := t, tick := Suc (tick w)\<rparr>))"

definition time_sleep :: "real \<Rightarrow> world \<Rightarrow> world" where
  "time_sleep d w = w\<lparr>now := now w + d\<rparr>"

definition note_measured :: "measurement \<Rightarrow> world \<Rightarrow> world" where
  "note_measured m w = w\<lparr>measured := measured w @ [m]\<rparr>"

text \<open>\<open>multiprocessing.Process(target=TimePromptsForModel, ...)\<close> and \<open>p.start()\<close>.\<close>

definition start_process :: "environment \<Rightarrow> world \<Rightarrow> nat \<times> world" where
  "start_process env w =
     (let p = started w; b = workers env p;
          puts = snd (TimePromptsForModel (target b) (worker_start b) (worker_end b) [])
      in (p, w\<lparr>started := Suc p, queue := queue w @ map (\<lambda>r. (arrives b, r)) puts\<rparr>))"

text \<open>The loop \<open>for _ in range(requests)\<close>, with the iterations that remain.\<close>

primrec start_processes ::
  "environment \<Rightarrow> nat \<Rightarrow> nat list \<Rightarrow> world \<Rightarrow> nat list \<times> world" where
  "start_processes env 0 processes w = (processes, w)"
| "start_processes env (Suc n) processes w =
     (case start_process env w of
        (p, w1) \<Rightarrow> start_processes env n (processes @ [p]) w1)"

definition SendParallelRequests :: "environment \<Rightarrow> int \<Rightarrow> world \<Rightarrow> nat list \<times> world" where
  "SendParallelRequests env requests w = start_processes env (nat requests) [] w"

definition EncounterClientError :: "flags \<Rightarrow> string \<Rightarrow> world \<Rightarrow> error + world" where
  "EncounterClientError fl error_msg w =
     (if THROW_ON_CLIENT_ERRORS fl then Inl (RunError error_msg)
      else Inr (w\<lparr>warnings := warnings w @ [error_msg]\<rparr>))"

text \<open>The three messages, without the numbers they quote.\<close>

definition slow_client_msg :: string where
  "slow_client_msg = ''the client took more than the burst time to send the requests''"

definition queue_wait_msg :: string where
  "queue_wait_msg = ''Waited more than 600 seconds for the queue to empty''"

definition join_wait_msg :: string where
  "join_wait_msg = ''Waited more than 95 seconds for processes to join''"

text \<open>
  \<open>while time.time() - process_start_time < time_between_bursts: time.sleep(0.1)\<close>.
  Each turn lets at least a tenth of a second pass, so the loop ends.
\<close>

function wait_for_next_burst :: "environment \<Rightarrow> real \<Rightarrow> real \<Rightarrow> world \<Rightarrow> world" where
  "wait_for_next_burst env process_start_time time_between_bursts w =
     (case time_time env w of
        (t, w1) \<Rightarrow>
          if t - process_start_time < time_between_bursts
          then wait_for_next_burst env process_start_time time_between_bursts
                 (time_sleep (1 / 10) w1)
          else w1)"
  by pat_completeness auto
termination
proof -
  have less: "\<lceil>d - (n + m + 1)\<rceil> < \<lceil>d - n\<rceil>" if "0 \<le> m" for d n m :: real
  proof -
    have "d - (n + m + 1) = (d - n - m) - 1" by simp
    then have "\<lceil>d - (n + m + 1)\<rceil> = \<lceil>d - n - m\<rceil> - 1"
      by (simp only: ceiling_diff_one)
    moreover have "\<lceil>d - n - m\<rceil> \<le> \<lceil>d - n\<rceil>"
      using that by (intro ceiling_mono) simp
    ultimately show ?thesis by simp
  qed
  show ?thesis
    apply (relation "measure (\<lambda>(env, process_start_time, time_between_bursts, w).
                   nat \<lceil>(process_start_time + time_between_bursts - now w) * 10\<rceil>)")
     apply simp
    apply (simp add: time_time_def Let_def time_sleep_def)
    apply (rule conjI)
     apply (simp add: max_def split: if_splits)
    apply (rule less)
    apply simp
    done
qed

declare wait_for_next_burst.simps [simp del]

text \<open>
  The loop \<open>for _ in range(goal_bursts)\<close>, with the bursts that remain and the
  processes started so far.
\<close>

primrec send_bursts ::
  "environment \<Rightarrow> flags \<Rightarrow> int \<Rightarrow> real \<Rightarrow> nat \<Rightarrow> nat list \<Rightarrow> world
     \<Rightarrow> error + nat list \<times> world" where
  "send_bursts env fl burst_requests time_between_bursts 0 processes w = Inr (processes, w)"
| "send_bursts env fl burst_requests time_between_bursts (Suc n) processes w =
     (case time_time env w of
        (process_start_time, w1) \<Rightarrow>
     (case SendParallelRequests env burst_requests w1 of
        (new_processes, w2) \<Rightarrow>
     (case time_time env w2 of
        (t2, w3) \<Rightarrow>
     (let process_startup_duration = t2 - process_start_time;
          w3m = note_measured (StartupDuration process_startup_duration) w3
      in
      case (if process_startup_duration > time_between_bursts
            then (case time_time env w3m of
                    (t3, w4) \<Rightarrow> EncounterClientError fl slow_client_msg w4)
            else Inr w3m)
      of Inl e \<Rightarrow> Inl e
       | Inr w5 \<Rightarrow>
           send_bursts env fl burst_requests time_between_bursts n
             (processes @ new_processes)
             (wait_for_next_burst env process_start_time time_between_bursts w5)))))"

text \<open>
  \<open>output_queue.empty()\<close> and \<open>output_queue.get()\<close>: the first item of the queue that
  has arrived by the time \<open>t\<close>, and the queue without it; \<open>None\<close> when the queue holds no
  such item.
\<close>

fun queue_get :: "real \<Rightarrow> (real \<times> 'a) list \<Rightarrow> ('a \<times> (real \<times> 'a) list) option" where
  "queue_get t [] = None"
| "queue_get t ((a, x) # q) =
     (if a \<le> t then Some (x, q)
      else (case queue_get t q of
              None \<Rightarrow> None
            | Some (y, q1) \<Rightarrow> Some (y, (a, x) # q1)))"

text \<open>The loop of \<open>EmptyQueue\<close>. Each turn takes an item from the queue.\<close>

function empty_queue_loop ::
  "environment \<Rightarrow> flags \<Rightarrow> real \<Rightarrow> ModelResponse list \<Rightarrow> world
     \<Rightarrow> error + ModelResponse list \<times> world" where
  "empty_queue_loop env fl queue_start_time results w =
     (case queue_get (now w) (queue w) of
        None \<Rightarrow> Inr (results, w)
      | Some (r, q1) \<Rightarrow>
         (case time_time env (w\<lparr>queue := q1\<rparr>) of
            (t, w1) \<Rightarrow>
              if t - queue_start_time > QUEUE_WAIT_TIME
              then (case EncounterClientError fl queue_wait_msg
                           (note_measured (QueueDuration (t - queue_start_time)) w1) of
                      Inl e \<Rightarrow> Inl e
                    | Inr w2 \<Rightarrow> Inr (results @ [r], w2))
              else empty_queue_loop env fl queue_start_time (results @ [r])
                     (note_measured (QueueDuration (t - queue_start_time)) w1)))"
  by pat_completeness auto
termination
proof -
  have shorter: "queue_get s q = Some (z, q') \<Longrightarrow> length q' < length q"
    for s z and q q' :: "(real \<times> ModelResponse) list"
    by (induction q arbitrary: q') (auto split: if_splits option.splits)
  show ?thesis
    apply (relation "measure (\<lambda>(env, fl, queue_start_time, results, w). length (queue w))")
     apply simp
    apply (auto simp: time_time_def note_measured_def Let_def dest: shorter)
    done
qed

declare empty_queue_loop.simps [simp del]

definition EmptyQueue ::
  "environment \<Rightarrow> flags \<Rightarrow> world \<Rightarrow> error + ModelResponse list \<times> world" where
  "EmptyQueue env fl w =
     (case time_time env w of
        (queue_start_time, w1) \<Rightarrow> empty_queue_loop env fl queue_start_time [] w1)"

text \<open>
  The loop \<open>for p in processes: p.join(_FAIL_LATENCY)\<close>; the time the join takes
  passes before the clock is read.
\<close>

fun join_processes ::
  "environment \<Rightarrow> flags \<Rightarrow> real \<Rightarrow> nat list \<Rightarrow> world \<Rightarrow> error + world" where
  "join_processes env fl process_start_time [] w = Inr w"
| "join_processes env fl process_start_time (p # processes) w =
     (case time_time env w of
        (t, w1) \<Rightarrow>
          if t - process_start_time > FAIL_LATENCY
          then EncounterClientError fl join_wait_msg
                 (note_measured (ProcessDuration (t - process_start_time)) w1)
          else join_processes env fl process_start_time processes
                 (note_measured (ProcessDuration (t - process_start_time)) w1))"

text \<open>
  The function. The queue is new at each call; the division by a burst time of zero
  raises.
\<close>

definition BurstRequestsOverTime ::
  "environment \<Rightarrow> flags \<Rightarrow> int \<Rightarrow> int \<Rightarrow> real \<Rightarrow> world
     \<Rightarrow> error + ModelResponse list \<times> world" where
  "BurstRequestsOverTime env fl burst_requests total_duration time_between_bursts w =
     (case time_time env w of
        (start_t, w1) \<Rightarrow>
     (case fdiv (real_of_int total_duration) time_between_bursts of
        Inl e \<Rightarrow> Inl e
      | Inr ratio \<Rightarrow>
     (let goal_bursts = \<lfloor>ratio\<rfloor> in
      case send_bursts env fl burst_requests time_between_bursts (nat goal_bursts) []
             (w1\<lparr>queue := []\<rparr>) of
        Inl e \<Rightarrow> Inl e
      | Inr (processes, w2) \<Rightarrow>
     (case EmptyQueue env fl w2 of
        Inl e \<Rightarrow> Inl e
      | Inr (results, w3) \<Rightarrow>
     (case time_time env w3 of
        (process_start_time, w4) \<Rightarrow>
     (case join_processes env fl process_start_time processes w4 of
        Inl e \<Rightarrow> Inl e
      | Inr w5 \<Rightarrow>
          if results = [] then EmptyQueue env fl w5 else Inr (results, w5)))))))"

section \<open>\<open>FindMaxThroughput\<close>\<close>

text \<open>
  \<open>range(start, stop, step)\<close> for a positive step, the only kind the module uses
  (\<open>step = 3\<close>).
\<close>

function py_range :: "int \<Rightarrow> int \<Rightarrow> int \<Rightarrow> int list" where
  "py_range start stop step =
     (if 0 < step \<and> start < stop then start # py_range (start + step) stop step else [])"
  by pat_completeness auto
termination
  by (relation "measure (\<lambda>(start, stop, step). nat (stop - start))") auto

declare py_range.simps [simp del]

text \<open>The failure test of the list comprehension in the loop body.\<close>

definition failed_response :: "ModelResponse \<Rightarrow> bool" where
  "failed_response r \<longleftrightarrow> status r \<noteq> 0 \<or> end_time r - start_time r > FAIL_LATENCY"

text \<open>The local variables of \<open>FindMaxThroughput\<close> that the loop assigns.\<close>

record locals =
  burst_requests :: int
  responses :: "ModelResponse list"
  failed_responses :: "ModelResponse list"
  last_responses :: "ModelResponse list"

text \<open>The four logging calls of \<open>FindMaxThroughput\<close>, with their arguments.\<close>

datatype log_entry =
    SendingQps int                \<comment> \<open>\<open>'Sending %s qps'\<close>\<close>
  | ReachedFailurePoint int nat   \<comment> \<open>\<open>'Reached failure point when trying ...'\<close>\<close>
  | FirstQpsHadErrors             \<comment> \<open>\<open>'The very first QPS tried had errors. ...'\<close>\<close>
  | ReachedMaxBurst int           \<comment> \<open>\<open>'Reached max burst value of %s without failures. ...'\<close>\<close>

text \<open>
  \<open>BurstRequestsOverTime\<close> is called once for each level tried, and the levels of a
  range are distinct: \<open>burst l\<close> is what the call at level \<open>l\<close> returns, or the
  exception it raises.

  The loop over the levels: \<open>break\<close> ends the recursion, an exception leaves the
  function with the log written so far.
\<close>

fun search_loop ::
  "(int \<Rightarrow> error + ModelResponse list) \<Rightarrow> int list \<Rightarrow> locals \<Rightarrow> log_entry list
     \<Rightarrow> (error + locals) \<times> log_entry list" where
  "search_loop burst [] st lg = (Inr st, lg)"
| "search_loop burst (l # ls) st lg =
     (let lg1 = lg @ [SendingQps l] in
      case burst l of
        Inl e \<Rightarrow> (Inl e, lg1)
      | Inr rs \<Rightarrow>
         (let failed = filter failed_response rs;
              st1 = st\<lparr>burst_requests := l, responses := rs, failed_responses := failed\<rparr>
          in
          if failed \<noteq> []
          then (Inr st1, lg1 @ [ReachedFailurePoint l (length failed)])
          else search_loop burst ls (st1\<lparr>last_responses := rs\<rparr>) lg1))"

text \<open>The local \<open>max_requests\<close>: the flag, or the start plus one when the flag is false.\<close>

definition max_requests :: "flags \<Rightarrow> int" where
  "max_requests fl =
     (if truthy (MAX_PARALLEL_REQUESTS fl) then the (MAX_PARALLEL_REQUESTS fl)
      else STARTING_REQUESTS fl + 1)"

definition FindMaxThroughput ::
  "flags \<Rightarrow> (int \<Rightarrow> error + ModelResponse list) \<Rightarrow> metadata
     \<Rightarrow> (error + sample list) \<times> log_entry list" where
  "FindMaxThroughput fl burst model_metadata =
     (let step = 3;
          st0 = \<lparr>burst_requests = STARTING_REQUESTS fl, responses = [],
                 failed_responses = [], last_responses = []\<rparr>
      in
      case search_loop burst (py_range (STARTING_REQUESTS fl) (max_requests fl) step) st0 []
      of
        (Inl e, lg) \<Rightarrow> (Inl e, lg)
      | (Inr st, lg) \<Rightarrow>
          if last_responses st = []
          then (AggregateResponses fl (responses st) (failed_responses st) model_metadata
                  (STARTING_REQUESTS fl),
                lg @ [FirstQpsHadErrors])
          else
            (let last_successful_bursts =
                   (if failed_responses st \<noteq> [] then burst_requests st - step
                    else burst_requests st);
                 lg1 = (if failed_responses st \<noteq> [] then lg
                        else lg @ [ReachedMaxBurst last_successful_bursts])
             in
             (case AggregateResponses fl (last_responses st) (failed_responses st)
                     model_metadata last_successful_bursts of
                Inl e \<Rightarrow> Inl e
              | Inr samples \<Rightarrow>
                 (case samples of
                    [] \<Rightarrow> Inl AssertionError
                  | s0 # _ \<Rightarrow>
                     (case fdiv (real_of_int last_successful_bursts) (BURST_TIME fl) of
                        Inl e \<Rightarrow> Inl e
                      | Inr tp \<Rightarrow>
                          Inr (samples @
                            [Sample ''max_throughput'' tp ''count'' (sample_metadata s0)]))),
              lg1)))"

section \<open>The statistics the specification names\<close>

text \<open>
  The specification speaks of the standard median (the middle value of the sorted
  data, the average of the two middle values for an even count) and of the arithmetic
  mean. These two definitions follow its words; the aggregator is compared with them.
\<close>

definition standard_median :: "real list \<Rightarrow> real" where
  "standard_median xs =
     (let s = sort xs; n = length xs in
      if odd n then s ! (n div 2) else (s ! (n div 2 - 1) + s ! (n div 2)) / 2)"

definition arithmetic_mean :: "real list \<Rightarrow> real" where
  "arithmetic_mean xs = sum_list xs / real (length xs)"

text \<open>
  The statistics of section 4.5 of the specification, as metric records sharing one
  metadata bag: the failure statistics (only if failures exist) are the median of the
  failure durations and their count; the success statistics are the success rate
  \<open>successes / (successes + failures) * 100\<close>, the number of successes, and the median
  and the mean of the success durations.
\<close>

definition failure_statistics :: "metadata \<Rightarrow> real list \<Rightarrow> sample list" where
  "failure_statistics md failure_durations =
     (if failure_durations = [] then []
      else [Sample ''failure_median_response_time'' (standard_median failure_durations)
              ''seconds'' md,
            Sample ''num_failures'' (real (length failure_durations)) ''count'' md])"

definition success_statistics :: "metadata \<Rightarrow> real list \<Rightarrow> nat \<Rightarrow> sample list" where
  "success_statistics md success_durations failures =
     [Sample ''success_rate''
        (real (length success_durations) / real (length success_durations + failures) * 100)
        ''percent'' md,
      Sample ''num_responses'' (real (length success_durations)) ''count'' md,
      Sample ''median_response_time'' (standard_median success_durations) ''seconds'' md,
      Sample ''mean_response_time'' (arithmetic_mean success_durations) ''seconds'' md]"

text \<open>
  The metadata of a report at a level: the model's, labelled with the level and its
  effective rate \<open>level / burst interval\<close>.
\<close>

definition report_metadata :: "flags \<Rightarrow> metadata \<Rightarrow> int \<Rightarrow> metadata" where
  "report_metadata fl model_metadata level =
     update_metadata fl level (real_of_int level / BURST_TIME fl) model_metadata"

section \<open>Client overload\<close>

text \<open>
  The client-overload conditions of the specification, on the durations that the
  scheduler measures: launching a burst took longer than the burst interval, the
  joins took longer in total than \<open>FailLatencyThreshold\<close>, and emptying the queue took
  longer than \<open>QueueWaitTime\<close>; and the message that reports each of them.
\<close>

fun is_overload :: "real \<Rightarrow> measurement \<Rightarrow> bool" where
  "is_overload burst_interval (StartupDuration d) \<longleftrightarrow> d > burst_interval"
| "is_overload burst_interval (QueueDuration d) \<longleftrightarrow> d > QUEUE_WAIT_TIME"
| "is_overload burst_interval (ProcessDuration d) \<longleftrightarrow> d > FAIL_LATENCY"

fun client_error_message :: "measurement \<Rightarrow> string" where
  "client_error_message (StartupDuration d) = slow_client_msg"
| "client_error_message (QueueDuration d) = queue_wait_msg"
| "client_error_message (ProcessDuration d) = join_wait_msg"

text \<open>
  How a call under \<open>ai_throw_on_client_errors\<close> follows the same call without it, from
  the state \<open>w\<close>: the lenient call returns a value \<open>x\<close>, has measured \<open>durations\<close> on the
  way to the state \<open>proj x\<close> and has logged a warning for each of them that is an
  overload; the strict call returns the same value when none is, and raises \<open>RunError\<close>
  with the message of the first overload otherwise.
\<close>

definition strict_follows ::
  "real \<Rightarrow> world \<Rightarrow> ('a \<Rightarrow> world) \<Rightarrow> error + 'a \<Rightarrow> error + 'a \<Rightarrow> bool" where
  "strict_follows burst_interval w proj lenient_result strict_result \<longleftrightarrow>
     (\<exists>x durations.
        lenient_result = Inr x \<and> measured (proj x) = measured w @ durations
        \<and> warnings (proj x)
            = warnings w @ map client_error_message (filter (is_overload burst_interval) durations)
        \<and> strict_result =
            (case filter (is_overload burst_interval) durations of
               [] \<Rightarrow> Inr x
             | m # others \<Rightarrow> Inl (RunError (client_error_message m))))"

section \<open>Example data\<close>

text \<open>
  Flags with the defaults of the module (start 5, 60 seconds, bursts every second,
  client errors logged) and a given maximum; a response that took \<open>d\<close> seconds with
  status 0, and one with status 1.
\<close>

definition example_flags :: "int option \<Rightarrow> flags" where
  "example_flags m =
     \<lparr>STARTING_REQUESTS = 5, MAX_PARALLEL_REQUESTS = m, TEST_DURATION = 60,
      BURST_TIME = 1, THROW_ON_CLIENT_ERRORS = False\<rparr>"

definition ok_response :: "real \<Rightarrow> ModelResponse" where
  "ok_response d = \<lparr>start_time = 0, end_time = d, response = None, status = 0\<rparr>"

definition error_response :: "real \<Rightarrow> ModelResponse" where
  "error_response d = \<lparr>start_time = 0, end_time = d, response = None, status = 1\<rparr>"

text \<open>The metadata of the example reports, for a model without metadata of its own.\<close>

definition example_metadata :: "int \<Rightarrow> metadata" where
  "example_metadata level =
     [(''parallel_requests'', MInt level), (''test_duration'', MInt 60),
      (''burst_time'', MFloat 1), (''effective_qps'', MFloat (real_of_int level))]"

text \<open>
  An environment and a first state for the scheduler: half a second passes before
  each clock reading; the process number 1 gets \<open>GetError\<close> from the model, the
  process number 2 another exception, every other process a reply; the process number
  \<open>i\<close> starts at \<open>i\<close> seconds, ends a second later and its response can be taken from
  the queue a second after that.
\<close>

definition example_environment :: environment where
  "example_environment =
     \<lparr>cost = (\<lambda>i. 1 / 2),
      workers = (\<lambda>i. \<lparr>target = (if i = 1 then Inl (GetError ''unavailable'')
                                else if i = 2 then Inl (OtherException ''timeout'')
                                else Inr [''a reply'']),
                      worker_start = real i, worker_end = real i + 1,
                      arrives = real i + 2\<rparr>)\<rparr>"

definition example_world :: world where
  "example_world =
     \<lparr>now = 0, tick = 0, started = 0, queue = [], warnings = [], measured = []\<rparr>"

section \<open>Properties of the statistics\<close>

lemma sort_Nil_iff: "sort xs = [] \<longleftrightarrow> xs = []"
  by (metis length_0_conv length_sort)

lemma median_nonempty: "xs \<noteq> [] \<Longrightarrow> median xs = Inr (standard_median xs)"
  by (auto simp: median_def standard_median_def Let_def odd_iff_mod_2_eq_one sort_Nil_iff)

lemma mean_nonempty: "xs \<noteq> [] \<Longrightarrow> mean xs = Inr (arithmetic_mean xs)"
  by (simp add: mean_def arithmetic_mean_def)

text \<open>
  The standard median splits the data: at least half of the values are at most the
  median, and at least half are at least the median.
\<close>

lemma length_filter_sort: "length (filter P (sort xs)) = length (filter P xs)"
  by (simp add: filter_sort)

lemma length_filter_prefix:
  assumes "m \<le> length s" and "\<forall>i<m. P (s ! i)"
  shows "m \<le> length (filter P s)"
proof -
  have "filter P (take m s) = take m s"
    using assms by (auto simp: filter_id_conv in_set_conv_nth)
  then have "length (filter P (take m s)) = m" using assms(1) by simp
  moreover have "length (filter P s) = length (filter P (take m s)) + length (filter P (drop m s))"
    by (metis append_take_drop_id filter_append length_append)
  ultimately show ?thesis by simp
qed

lemma length_filter_suffix:
  assumes "\<forall>i. m \<le> i \<and> i < length s \<longrightarrow> P (s ! i)"
  shows "length s - m \<le> length (filter P s)"
proof -
  have "filter P (drop m s) = drop m s"
    using assms by (auto simp: filter_id_conv in_set_conv_nth)
  then have "length (filter P (drop m s)) = length s - m" by simp
  moreover have "length (filter P s) = length (filter P (take m s)) + length (filter P (drop m s))"
    by (metis append_take_drop_id filter_append length_append)
  ultimately show ?thesis by simp
qed

lemma standard_median_splits:
  assumes "xs \<noteq> []"
  shows "length xs \<le> 2 * length (filter (\<lambda>x. x \<le> standard_median xs) xs)"
    and "length xs \<le> 2 * length (filter (\<lambda>x. standard_median xs \<le> x) xs)"
proof -
  let ?s = "sort xs" and ?n = "length xs" and ?m = "standard_median xs"
  have n: "length ?s = ?n" "0 < ?n" using assms by simp_all
  have srt: "sorted ?s" by simp
  have mono: "i \<le> j \<Longrightarrow> j < ?n \<Longrightarrow> ?s ! i \<le> ?s ! j" for i j
    using srt n(1) by (simp add: sorted_nth_mono)
  have k: "?n div 2 < ?n" using n(2) by simp
  have lo: "?s ! (?n div 2 - 1) \<le> ?m \<or> odd ?n" and lo': "odd ?n \<Longrightarrow> ?m = ?s ! (?n div 2)"
    and hi: "?m \<le> ?s ! (?n div 2)"
    using mono[of "?n div 2 - 1" "?n div 2"] k
    by (auto simp: standard_median_def Let_def)
  have low_count: "(if odd ?n then ?n div 2 + 1 else ?n div 2)
                     \<le> length (filter (\<lambda>x. x \<le> ?m) ?s)"
  proof (rule length_filter_prefix)
    show "(if odd ?n then ?n div 2 + 1 else ?n div 2) \<le> length ?s" using k n(1) by simp
    show "\<forall>i<(if odd ?n then ?n div 2 + 1 else ?n div 2). ?s ! i \<le> ?m"
    proof (intro allI impI)
      fix i assume i: "i < (if odd ?n then ?n div 2 + 1 else ?n div 2)"
      show "?s ! i \<le> ?m"
      proof (cases "odd ?n")
        case True
        then show ?thesis using i mono[of i "?n div 2"] k lo' by simp
      next
        case False
        then have "?s ! i \<le> ?s ! (?n div 2 - 1)"
          using i mono[of i "?n div 2 - 1"] k by simp
        then show ?thesis using lo False by simp
      qed
    qed
  qed
  have high_count: "?n - ?n div 2 \<le> length (filter (\<lambda>x. ?m \<le> x) ?s)"
  proof -
    have "\<forall>i. ?n div 2 \<le> i \<and> i < length ?s \<longrightarrow> ?m \<le> ?s ! i"
      using hi mono n(1) by (metis order_trans)
    from length_filter_suffix[OF this] show ?thesis using n(1) by simp
  qed
  show "?n \<le> 2 * length (filter (\<lambda>x. x \<le> ?m) xs)"
    using low_count by (simp add: length_filter_sort split: if_splits) presburger+
  show "?n \<le> 2 * length (filter (\<lambda>x. ?m \<le> x) xs)"
    using high_count by (simp add: length_filter_sort)
qed

lemma Sample_sel [simp]:
  "metric (Sample m v u md) = m"
  "sample_value (Sample m v u md) = v"
  "sample_unit (Sample m v u md) = u"
  "sample_metadata (Sample m v u md) = md"
  by (simp_all add: Sample_def)

lemma AggregateResponses_nonempty:
  assumes "BURST_TIME fl \<noteq> 0" and "succ \<noteq> []"
  shows "AggregateResponses fl succ failed model_metadata n =
     Inr (failure_statistics (report_metadata fl model_metadata n) (map duration failed)
          @ success_statistics (report_metadata fl model_metadata n) (map duration succ)
              (length failed))"
  using assms
  by (simp add: AggregateResponses_def fdiv_def Let_def median_nonempty mean_nonempty
        failure_statistics_def success_statistics_def report_metadata_def)

lemma AggregateResponses_empty:
  assumes "BURST_TIME fl \<noteq> 0"
  shows "AggregateResponses fl [] failed model_metadata n =
     Inr (failure_statistics (report_metadata fl model_metadata n) (map duration failed))"
  using assms
  by (simp add: AggregateResponses_def fdiv_def Let_def median_nonempty
        failure_statistics_def report_metadata_def)

lemma metric_success_statistics:
  "map metric (success_statistics md ds k)
     = [''success_rate'', ''num_responses'', ''median_response_time'',
        ''mean_response_time'']"
  by (simp add: success_statistics_def Sample_def)

lemma metric_AggregateResponses:
  assumes "AggregateResponses fl rs fs md n = Inr samples"
  shows "''max_throughput'' \<notin> set (map metric samples)"
  using assms
  by (auto simp: AggregateResponses_def Let_def Sample_def
           split: sum.splits if_splits)


lemma failure_statistics_nonempty:
  "ds \<noteq> [] \<Longrightarrow> failure_statistics md ds =
     [Sample ''failure_median_response_time'' (standard_median ds) ''seconds'' md,
      Sample ''num_failures'' (real (length ds)) ''count'' md]"
  by (simp add: failure_statistics_def)

text \<open>The definitions that the examples unfold.\<close>

lemmas eval_defs = FindMaxThroughput_def AggregateResponses_def fdiv_def median_def mean_def
  duration_def update_metadata_def Let_def py_range.simps

lemmas ex_defs = example_flags_def ok_response_def error_response_def example_metadata_def
  max_requests_def truthy_def failed_response_def FAIL_LATENCY_def

section \<open>Properties of the range of levels\<close>

lemma py_range_Nil: "\<not> (0 < s \<and> a < b) \<Longrightarrow> py_range a b s = []"
  by (subst py_range.simps) auto

lemma py_range_Cons: "0 < s \<Longrightarrow> a < b \<Longrightarrow> py_range a b s = a # py_range (a + s) b s"
  by (subst py_range.simps) auto




lemma py_range_adjacent:
  "0 < s \<Longrightarrow> py_range a b s = xs @ x # y # ys \<Longrightarrow> y = x + s"
proof (induction a b s arbitrary: xs rule: py_range.induct)
  case (1 start stop step)
  have lt: "start < stop"
    using "1.prems" by (cases "start < stop") (auto simp: py_range_Nil)
  then have eq: "start # py_range (start + step) stop step = xs @ x # y # ys"
    using "1.prems" by (simp add: py_range_Cons)
  show ?case
  proof (cases xs)
    case Nil
    with eq have x: "x = start" and tl: "py_range (start + step) stop step = y # ys" by auto
    have "start + step < stop"
      using tl "1.prems"(1) by (cases "start + step < stop") (auto simp: py_range_Nil)
    then have "py_range (start + step) stop step
                 = (start + step) # py_range (start + step + step) stop step"
      using "1.prems"(1) by (simp add: py_range_Cons)
    with tl x show ?thesis by simp
  next
    case (Cons z zs)
    with eq have "py_range (start + step) stop step = zs @ x # y # ys" by auto
    then show ?thesis using "1.IH" "1.prems"(1) lt by auto
  qed
qed


section \<open>Properties of the search loop\<close>

lemma search_loop_clean_prefix:
  assumes "\<forall>l\<in>set pre. burst l = Inr (out l) \<and> filter failed_response (out l) = []"
    and "pre \<noteq> []"
  shows "search_loop burst (pre @ rest) st lg =
           search_loop burst rest
             \<lparr>burst_requests = last pre, responses = out (last pre),
              failed_responses = [], last_responses = out (last pre)\<rparr>
             (lg @ map SendingQps pre)"
  using assms
proof (induction pre arbitrary: st lg)
  case Nil
  then show ?case by simp
next
  case (Cons l ls)
  show ?case
  proof (cases "ls = []")
    case True
    with Cons.prems show ?thesis by (cases st) simp
  next
    case False
    with Cons.prems Cons.IH show ?thesis by simp
  qed
qed

lemma FindMaxThroughput_from_loop:
  assumes "search_loop burst (py_range (STARTING_REQUESTS fl) (max_requests fl) 3)
             \<lparr>burst_requests = STARTING_REQUESTS fl, responses = [],
              failed_responses = [], last_responses = []\<rparr> [] = (Inr st, lg)"
    and "BURST_TIME fl \<noteq> 0"
    and "last_responses st \<noteq> []"
    and "n = (if failed_responses st \<noteq> [] then burst_requests st - 3
              else burst_requests st)"
  shows "fst (FindMaxThroughput fl burst md) =
     Inr (failure_statistics (report_metadata fl md n) (map duration (failed_responses st))
          @ success_statistics (report_metadata fl md n) (map duration (last_responses st))
              (length (failed_responses st))
          @ [Sample ''max_throughput'' (real_of_int n / BURST_TIME fl) ''count''
               (report_metadata fl md n)])"
proof (cases "failed_responses st = []")
  case True
  then show ?thesis
    using assms
    by (simp add: FindMaxThroughput_def Let_def AggregateResponses_nonempty fdiv_def
          failure_statistics_def success_statistics_def Sample_def)
next
  case False
  then show ?thesis
    using assms
    by (simp add: FindMaxThroughput_def Let_def AggregateResponses_nonempty fdiv_def
          failure_statistics_def success_statistics_def Sample_def)
qed

lemma FindMaxThroughput_degraded:
  assumes "search_loop burst (py_range (STARTING_REQUESTS fl) (max_requests fl) 3)
             \<lparr>burst_requests = STARTING_REQUESTS fl, responses = [],
              failed_responses = [], last_responses = []\<rparr> [] = (Inr st, lg)"
    and "last_responses st = []"
  shows "FindMaxThroughput fl burst md =
     (AggregateResponses fl (responses st) (failed_responses st) md (STARTING_REQUESTS fl),
      lg @ [FirstQpsHadErrors])"
  using assms by (simp add: FindMaxThroughput_def Let_def)

lemma FindMaxThroughput_after_clean:
  assumes "BURST_TIME fl \<noteq> 0"
    and "py_range (STARTING_REQUESTS fl) (max_requests fl) 3 = pre @ rest"
    and "pre \<noteq> []"
    and "\<forall>l\<in>set pre. burst l = Inr (out l) \<and> filter failed_response (out l) = []"
    and "out (last pre) \<noteq> []"
    and "rest = [] \<and> fs = []
         \<or> (\<exists>L post rs. rest = L # post \<and> burst L = Inr rs
               \<and> fs = filter failed_response rs \<and> fs \<noteq> [])"
  shows "fst (FindMaxThroughput fl burst md) =
     Inr (failure_statistics (report_metadata fl md (last pre)) (map duration fs)
          @ success_statistics (report_metadata fl md (last pre))
              (map duration (out (last pre))) (length fs)
          @ [Sample ''max_throughput'' (real_of_int (last pre) / BURST_TIME fl) ''count''
               (report_metadata fl md (last pre))])"
proof -
  let ?init = "\<lparr>burst_requests = STARTING_REQUESTS fl, responses = [],
               failed_responses = [], last_responses = []\<rparr>"
  let ?st = "\<lparr>burst_requests = last pre, responses = out (last pre),
              failed_responses = [], last_responses = out (last pre)\<rparr>"
  have loop: "search_loop burst (py_range (STARTING_REQUESTS fl) (max_requests fl) 3) ?init []
                = search_loop burst rest ?st ([] @ map SendingQps pre)"
    unfolding assms(2) using assms(4,3) by (rule search_loop_clean_prefix)
  from assms(6) show ?thesis
  proof
    assume a: "rest = [] \<and> fs = []"
    have "search_loop burst (py_range (STARTING_REQUESTS fl) (max_requests fl) 3) ?init []
            = (Inr ?st, map SendingQps pre)"
      using loop a by simp
    from FindMaxThroughput_from_loop[OF this assms(1), of "last pre" md]
    have "fst (FindMaxThroughput fl burst md) =
       Inr (failure_statistics (report_metadata fl md (last pre)) (map duration [])
            @ success_statistics (report_metadata fl md (last pre))
                (map duration (out (last pre))) (length ([]::ModelResponse list))
            @ [Sample ''max_throughput'' (real_of_int (last pre) / BURST_TIME fl) ''count''
                 (report_metadata fl md (last pre))])"
      using assms(5) by simp
    then show ?thesis using a by simp
  next
    assume "\<exists>L post rs. rest = L # post \<and> burst L = Inr rs
               \<and> fs = filter failed_response rs \<and> fs \<noteq> []"
    then obtain L post rs where b: "rest = L # post" "burst L = Inr rs"
      "fs = filter failed_response rs" "fs \<noteq> []" by blast
    have "py_range (STARTING_REQUESTS fl) (max_requests fl) 3
            = butlast pre @ last pre # L # post"
      using assms(2,3) b(1) by simp
    then have "L = last pre + 3"
      by (rule py_range_adjacent[rotated]) simp
    then have lp: "last pre = L - 3" by simp
    have "search_loop burst (py_range (STARTING_REQUESTS fl) (max_requests fl) 3) ?init []
            = (Inr (?st\<lparr>burst_requests := L, responses := rs, failed_responses := fs\<rparr>),
               map SendingQps pre @ [SendingQps L, ReachedFailurePoint L (length fs)])"
      using loop b by (simp add: Let_def)
    from FindMaxThroughput_from_loop[OF this assms(1), of "last pre" md]
    show ?thesis
      using assms(5) b(4) lp by simp
  qed
qed

section \<open>Properties of the scheduler\<close>

lemma time_time_frame:
  assumes "time_time env w = (t, w1)"
  shows "queue w1 = queue w" and "warnings w1 = warnings w" and "measured w1 = measured w"
    and "now w \<le> t" and "now w1 = t"
  using assms by (auto simp: time_time_def Let_def)

lemma time_sleep_frame [simp]:
  "queue (time_sleep d w) = queue w" "warnings (time_sleep d w) = warnings w"
  "measured (time_sleep d w) = measured w"
  by (simp_all add: time_sleep_def)

lemma note_measured_frame [simp]:
  "queue (note_measured m w) = queue w" "warnings (note_measured m w) = warnings w"
  "measured (note_measured m w) = measured w @ [m]"
  by (simp_all add: note_measured_def)

lemma wait_for_next_burst_frame:
  "queue (wait_for_next_burst env s b w) = queue w
   \<and> warnings (wait_for_next_burst env s b w) = warnings w
   \<and> measured (wait_for_next_burst env s b w) = measured w"
proof (induction env s b w rule: wait_for_next_burst.induct)
  case (1 env s b w)
  obtain t w1 where tt: "time_time env w = (t, w1)" by (cases "time_time env w")
  show ?case
  proof (cases "t - s < b")
    case True
    then show ?thesis
      using "1.IH"[OF tt[symmetric] True] time_time_frame[OF tt] tt
      by (subst (1 2 3) wait_for_next_burst.simps) simp
  next
    case False
    then show ?thesis
      using time_time_frame[OF tt] tt by (subst (1 2 3) wait_for_next_burst.simps) simp
  qed
qed

lemma TimePromptsForModel_puts:
  "length (snd (TimePromptsForModel s a b q)) \<le> Suc (length q)"
  by (auto simp: TimePromptsForModel_def SendPrompt_def split: sum.splits error.splits)

lemma start_process_frame:
  assumes "start_process env w = (p, w1)"
  shows "length (queue w1) \<le> Suc (length (queue w))" and "warnings w1 = warnings w"
    and "measured w1 = measured w"
  using assms
    TimePromptsForModel_puts[of "target (workers env (started w))"
      "worker_start (workers env (started w))" "worker_end (workers env (started w))" "[]"]
  by (auto simp: start_process_def Let_def)

lemma start_processes_frame:
  assumes "start_processes env n ps w = (ps1, w1)"
  shows "length (queue w1) \<le> length (queue w) + n \<and> warnings w1 = warnings w
           \<and> measured w1 = measured w"
  using assms
proof (induction n arbitrary: ps w)
  case 0
  then show ?case by simp
next
  case (Suc n)
  obtain p w0 where sp: "start_process env w = (p, w0)" by (cases "start_process env w")
  with Suc.prems have "start_processes env n (ps @ [p]) w0 = (ps1, w1)" by simp
  from Suc.IH[OF this] start_process_frame[OF sp] show ?case by simp
qed

lemma SendParallelRequests_frame:
  assumes "SendParallelRequests env requests w = (ps, w1)"
  shows "length (queue w1) \<le> length (queue w) + nat requests" and "warnings w1 = warnings w"
    and "measured w1 = measured w"
  using start_processes_frame[of env "nat requests" "[]" w ps w1] assms
  by (simp_all add: SendParallelRequests_def)

lemma EncounterClientError_queue:
  "EncounterClientError fl m w = Inr w1 \<Longrightarrow> queue w1 = queue w"
  by (auto simp: EncounterClientError_def split: if_splits)

lemma send_bursts_queue:
  assumes "send_bursts env fl c b n ps w = Inr (ps1, w1)"
  shows "length (queue w1) \<le> length (queue w) + n * nat c"
  using assms
proof (induction n arbitrary: ps w)
  case 0
  then show ?case by simp
next
  case (Suc n)
  obtain s wa where t1: "time_time env w = (s, wa)" by (cases "time_time env w")
  obtain new wb where sp: "SendParallelRequests env c wa = (new, wb)"
    by (cases "SendParallelRequests env c wa")
  obtain t2 wc where t2: "time_time env wb = (t2, wc)" by (cases "time_time env wb")
  let ?wm = "note_measured (StartupDuration (t2 - s)) wc"
  obtain t3 wd where t3: "time_time env ?wm = (t3, wd)" by (cases "time_time env ?wm")
  have qc: "length (queue wc) \<le> length (queue w) + nat c"
    using time_time_frame(1)[OF t1] SendParallelRequests_frame(1)[OF sp]
      time_time_frame(1)[OF t2] by simp
  from Suc.prems obtain we where
    we: "(if t2 - s > b then EncounterClientError fl slow_client_msg wd else Inr ?wm) = Inr we"
    and rest: "send_bursts env fl c b n (ps @ new) (wait_for_next_burst env s b we)
                 = Inr (ps1, w1)"
    by (auto simp: t1 sp t2 t3 Let_def split: sum.splits if_splits)
  have "queue we = queue wc"
    using we EncounterClientError_queue[of fl slow_client_msg wd we] time_time_frame(1)[OF t3]
    by (auto split: if_splits)
  then have "length (queue (wait_for_next_burst env s b we)) \<le> length (queue w) + nat c"
    using qc by (simp add: wait_for_next_burst_frame)
  with Suc.IH[OF rest] show ?case by simp
qed

lemma queue_get_length:
  "queue_get t q = Some (x, q1) \<Longrightarrow> length q = Suc (length q1)"
  by (induction q arbitrary: q1) (auto split: if_splits option.splits)

lemma empty_queue_loop_count:
  assumes "empty_queue_loop env fl s rs w = Inr (rs1, w1)"
  shows "length rs1 + length (queue w1) = length rs + length (queue w)"
  using assms
proof (induction env fl s rs w rule: empty_queue_loop.induct)
  case (1 env fl s rs w)
  show ?case
  proof (cases "queue_get (now w) (queue w)")
    case None
    with "1.prems" show ?thesis by (subst (asm) empty_queue_loop.simps) simp
  next
    case (Some a)
    obtain r q1 where a: "a = (r, q1)" by (cases a)
    obtain t wa where tt: "time_time env (w\<lparr>queue := q1\<rparr>) = (t, wa)"
      by (cases "time_time env (w\<lparr>queue := q1\<rparr>)")
    have qa: "queue wa = q1" using time_time_frame(1)[OF tt] by simp
    have len: "length (queue w) = Suc (length q1)"
      using queue_get_length[of "now w" "queue w" r q1] Some a by simp
    show ?thesis
    proof (cases "t - s > QUEUE_WAIT_TIME")
      case True
      with "1.prems" Some a tt obtain wb where
        "EncounterClientError fl queue_wait_msg (note_measured (QueueDuration (t - s)) wa)
           = Inr wb" "rs1 = rs @ [r]" "w1 = wb"
        by (subst (asm) empty_queue_loop.simps) (auto split: sum.splits)
      then show ?thesis
        using qa len
          EncounterClientError_queue[of fl queue_wait_msg
            "note_measured (QueueDuration (t - s)) wa" wb]
        by simp
    next
      case False
      with "1.prems" Some a tt
      have "empty_queue_loop env fl s (rs @ [r]) (note_measured (QueueDuration (t - s)) wa)
              = Inr (rs1, w1)"
        by (subst (asm) empty_queue_loop.simps) simp
      from "1.IH"[OF Some a[symmetric] tt[symmetric] False this] qa len
      show ?thesis by simp
    qed
  qed
qed

lemma EmptyQueue_count:
  assumes "EmptyQueue env fl w = Inr (rs, w1)"
  shows "length rs + length (queue w1) = length (queue w)"
proof -
  obtain t wa where tt: "time_time env w = (t, wa)" by (cases "time_time env w")
  then have "empty_queue_loop env fl t [] wa = Inr (rs, w1)"
    using assms by (simp add: EmptyQueue_def)
  from empty_queue_loop_count[OF this] time_time_frame(1)[OF tt] show ?thesis by simp
qed

lemma join_processes_queue:
  "join_processes env fl s ps w = Inr w1 \<Longrightarrow> queue w1 = queue w"
proof (induction ps arbitrary: w)
  case Nil
  then show ?case by simp
next
  case (Cons p ps)
  obtain t wa where tt: "time_time env w = (t, wa)" by (cases "time_time env w")
  show ?case
  proof (cases "t - s > FAIL_LATENCY")
    case True
    then show ?thesis
      using Cons.prems tt time_time_frame(1)[OF tt]
        EncounterClientError_queue[of fl _ "note_measured (ProcessDuration (t - s)) wa" w1]
      by simp
  next
    case False
    then show ?thesis
      using Cons.prems tt time_time_frame(1)[OF tt]
        Cons.IH[of "note_measured (ProcessDuration (t - s)) wa"] by simp
  qed
qed

lemma BurstRequestsOverTime_count:
  assumes "BurstRequestsOverTime env fl c dur b w = Inr (rs, w1)"
  shows "b \<noteq> 0" and "length rs \<le> nat \<lfloor>real_of_int dur / b\<rfloor> * nat c"
proof -
  show b: "b \<noteq> 0"
    using assms by (auto simp: BurstRequestsOverTime_def fdiv_def split: prod.splits)
  let ?n = "nat \<lfloor>real_of_int dur / b\<rfloor>"
  obtain t0 wa where t0: "time_time env w = (t0, wa)" by (cases "time_time env w")
  from assms b t0 obtain ps wb where
    sb: "send_bursts env fl c b ?n [] (wa\<lparr>queue := []\<rparr>) = Inr (ps, wb)"
    by (auto simp: BurstRequestsOverTime_def fdiv_def Let_def split: sum.splits)
  from assms b t0 sb obtain rs0 wc where eq: "EmptyQueue env fl wb = Inr (rs0, wc)"
    by (auto simp: BurstRequestsOverTime_def fdiv_def Let_def split: sum.splits)
  obtain s wd where t1: "time_time env wc = (s, wd)" by (cases "time_time env wc")
  from assms b t0 sb eq t1 obtain we where jp: "join_processes env fl s ps wd = Inr we"
    and fin: "(if rs0 = [] then EmptyQueue env fl we else Inr (rs0, we)) = Inr (rs, w1)"
    by (auto simp: BurstRequestsOverTime_def fdiv_def Let_def split: sum.splits)
  have qb: "length (queue wb) \<le> ?n * nat c" using send_bursts_queue[OF sb] by simp
  have c0: "length rs0 + length (queue wc) = length (queue wb)" by (rule EmptyQueue_count[OF eq])
  have qe: "queue we = queue wc"
    using join_processes_queue[OF jp] time_time_frame(1)[OF t1] by simp
  show "length rs \<le> ?n * nat c"
  proof (cases "rs0 = []")
    case True
    with fin have "EmptyQueue env fl we = Inr (rs, w1)" by simp
    from EmptyQueue_count[OF this] qe c0 qb show ?thesis by simp
  next
    case False
    with fin have "rs = rs0" by simp
    with c0 qb show ?thesis by simp
  qed
qed

lemma strict_follows_then:
  assumes "strict_follows bi w proj ml ms"
    and "\<And>x. strict_follows bi (proj x) proj' (gl x) (gs x)"
  shows "strict_follows bi w proj'
           (case ml of Inl e \<Rightarrow> Inl e | Inr x \<Rightarrow> gl x)
           (case ms of Inl e \<Rightarrow> Inl e | Inr x \<Rightarrow> gs x)"
proof -
  from assms(1) obtain x ds where
    1: "ml = Inr x" "measured (proj x) = measured w @ ds"
       "warnings (proj x)
          = warnings w @ map client_error_message (filter (is_overload bi) ds)"
       "ms = (case filter (is_overload bi) ds of
                [] \<Rightarrow> Inr x
              | m # others \<Rightarrow> Inl (RunError (client_error_message m)))"
    unfolding strict_follows_def by blast
  from assms(2)[of x] obtain y ds' where
    2: "gl x = Inr y" "measured (proj' y) = measured (proj x) @ ds'"
       "warnings (proj' y)
          = warnings (proj x) @ map client_error_message (filter (is_overload bi) ds')"
       "gs x = (case filter (is_overload bi) ds' of
                  [] \<Rightarrow> Inr y
                | m # others \<Rightarrow> Inl (RunError (client_error_message m)))"
    unfolding strict_follows_def by blast
  have m: "measured (proj' y) = measured w @ (ds @ ds')" using 1(2) 2(2) by simp
  have l: "warnings (proj' y)
             = warnings w @ map client_error_message (filter (is_overload bi) (ds @ ds'))"
    using 1(3) 2(3) by simp
  have s: "(case ms of Inl e \<Rightarrow> Inl e | Inr x \<Rightarrow> gs x)
        = (case filter (is_overload bi) (ds @ ds') of
             [] \<Rightarrow> Inr y
           | m # others \<Rightarrow> Inl (RunError (client_error_message m)))"
    using 1(4) 2(4) by (cases "filter (is_overload bi) ds") simp_all
  show ?thesis
    unfolding strict_follows_def using 1(1) 2(1) m l s
    by (intro exI[of _ y] exI[of _ "ds @ ds'"]) simp
qed

lemma strict_follows_return: "strict_follows bi (proj x) proj (Inr x) (Inr x)"
  unfolding strict_follows_def by (intro exI[of _ x] exI[of _ "[]"]) simp

lemma strict_follows_return_pair: "strict_follows bi w snd (Inr (rs, w)) (Inr (rs, w))"
  using strict_follows_return[of bi snd "(rs, w)"] by simp

lemma strict_follows_base:
  "warnings w = warnings w' \<Longrightarrow> measured w = measured w'
     \<Longrightarrow> strict_follows bi w proj a b \<Longrightarrow> strict_follows bi w' proj a b"
  by (simp add: strict_follows_def)

lemma strict_follows_within:
  assumes "measured wa = measured w @ [m]" and "warnings wa = warnings w"
    and "\<not> is_overload bi m"
  shows "strict_follows bi w (\<lambda>w. w) (Inr wa) (Inr wa)"
  unfolding strict_follows_def using assms
  by (intro exI[of _ wa] exI[of _ "[m]"]) simp

lemma strict_follows_overload:
  assumes "\<not> THROW_ON_CLIENT_ERRORS lenient" and "THROW_ON_CLIENT_ERRORS strict"
    and "measured wa = measured w @ [m]" and "warnings wa = warnings w"
    and "is_overload bi m"
  shows "strict_follows bi w (\<lambda>w. w)
           (EncounterClientError lenient (client_error_message m) wa)
           (EncounterClientError strict (client_error_message m) wa)"
  unfolding strict_follows_def EncounterClientError_def using assms
  by (intro exI[of _ "wa\<lparr>warnings := warnings wa @ [client_error_message m]\<rparr>"]
        exI[of _ "[m]"]) simp

lemma strict_follows_after:
  assumes "measured wa = measured w @ [m]" and "warnings wa = warnings w"
    and "\<not> is_overload bi m"
    and "strict_follows bi wa proj a b"
  shows "strict_follows bi w proj a b"
proof -
  from assms(4) obtain x ds where
    1: "a = Inr x" "measured (proj x) = measured wa @ ds"
       "warnings (proj x)
          = warnings wa @ map client_error_message (filter (is_overload bi) ds)"
       "b = (case filter (is_overload bi) ds of
               [] \<Rightarrow> Inr x
             | m # others \<Rightarrow> Inl (RunError (client_error_message m)))"
    unfolding strict_follows_def by blast
  show ?thesis
    unfolding strict_follows_def using 1 assms(1-3)
    by (intro exI[of _ x] exI[of _ "m # ds"]) simp
qed

lemma send_bursts_follows:
  assumes "\<not> THROW_ON_CLIENT_ERRORS lenient" and "THROW_ON_CLIENT_ERRORS strict"
  shows "strict_follows b w snd (send_bursts env lenient c b n ps w)
           (send_bursts env strict c b n ps w)"
proof (induction n arbitrary: ps w)
  case 0
  show ?case by (simp add: strict_follows_return_pair)
next
  case (Suc n)
  obtain s wa where t1: "time_time env w = (s, wa)" by (cases "time_time env w")
  obtain new wb where sp: "SendParallelRequests env c wa = (new, wb)"
    by (cases "SendParallelRequests env c wa")
  obtain t2 wc where t2: "time_time env wb = (t2, wc)" by (cases "time_time env wb")
  let ?m = "StartupDuration (t2 - s)"
  let ?wm = "note_measured ?m wc"
  obtain t3 wd where t3: "time_time env ?wm = (t3, wd)" by (cases "time_time env ?wm")
  have wc: "warnings wc = warnings w" "measured wc = measured w"
    using time_time_frame(2,3)[OF t1] SendParallelRequests_frame(2,3)[OF sp]
      time_time_frame(2,3)[OF t2] by simp_all
  have wm: "warnings ?wm = warnings w" "measured ?wm = measured w @ [?m]"
    using wc by simp_all
  have wd: "warnings wd = warnings w" "measured wd = measured w @ [?m]"
    using wm time_time_frame(2,3)[OF t3] by simp_all
  let ?step = "\<lambda>fl. if t2 - s > b then EncounterClientError fl slow_client_msg wd
                    else Inr ?wm"
  let ?next = "\<lambda>fl w5. send_bursts env fl c b n (ps @ new) (wait_for_next_burst env s b w5)"
  have unfold: "send_bursts env fl c b (Suc n) ps w =
      (case ?step fl of Inl e \<Rightarrow> Inl e | Inr w5 \<Rightarrow> ?next fl w5)" for fl
    by (simp add: t1 sp t2 t3 Let_def)
  have step: "strict_follows b w (\<lambda>w. w) (?step lenient) (?step strict)"
  proof (cases "t2 - s > b")
    case True
    then show ?thesis
      using strict_follows_overload[OF assms wd(2) wd(1), of b] by simp
  next
    case False
    then show ?thesis
      using strict_follows_within[OF wm(2) wm(1), of b] by simp
  qed
  have nxt: "strict_follows b w5 snd (?next lenient w5) (?next strict w5)" for w5
    using strict_follows_base[OF _ _
            Suc.IH[where ps = "ps @ new" and w = "wait_for_next_burst env s b w5"]]
    by (simp add: wait_for_next_burst_frame)
  show ?case
    unfolding unfold by (rule strict_follows_then[OF step nxt])
qed

lemma empty_queue_loop_follows:
  assumes "\<not> THROW_ON_CLIENT_ERRORS lenient" and "THROW_ON_CLIENT_ERRORS strict"
  shows "strict_follows bi w snd (empty_queue_loop env lenient s rs w)
           (empty_queue_loop env strict s rs w)"
  using assms(1)
proof (induction env lenient s rs w rule: empty_queue_loop.induct)
  case (1 env lenient s rs w)
  show ?case
  proof (cases "queue_get (now w) (queue w)")
    case None
    then show ?thesis
      by (subst (1 2) empty_queue_loop.simps) (simp add: strict_follows_return_pair)
  next
    case (Some a)
    obtain r q1 where a: "a = (r, q1)" by (cases a)
    obtain t wa where tt: "time_time env (w\<lparr>queue := q1\<rparr>) = (t, wa)"
      by (cases "time_time env (w\<lparr>queue := q1\<rparr>)")
    let ?m = "QueueDuration (t - s)"
    let ?wm = "note_measured ?m wa"
    have wm: "warnings ?wm = warnings w" "measured ?wm = measured w @ [?m]"
      using time_time_frame(2,3)[OF tt] by simp_all
    show ?thesis
    proof (cases "t - s > QUEUE_WAIT_TIME")
      case True
      then have over: "strict_follows bi w (\<lambda>w. w)
              (EncounterClientError lenient queue_wait_msg ?wm)
              (EncounterClientError strict queue_wait_msg ?wm)"
        using strict_follows_overload[OF "1.prems" assms(2) wm(2) wm(1), of bi] by simp
      have "strict_follows bi w snd
              (case EncounterClientError lenient queue_wait_msg ?wm of
                 Inl e \<Rightarrow> Inl e | Inr w2 \<Rightarrow> Inr (rs @ [r], w2))
              (case EncounterClientError strict queue_wait_msg ?wm of
                 Inl e \<Rightarrow> Inl e | Inr w2 \<Rightarrow> Inr (rs @ [r], w2))"
        by (rule strict_follows_then[OF over]) (rule strict_follows_return_pair)
      then show ?thesis
        using Some a tt True by (subst (1 2) empty_queue_loop.simps) simp
    next
      case False
      then have "\<not> is_overload bi ?m" by simp
      from strict_follows_after[OF wm(2) wm(1) this
             "1.IH"[OF Some a[symmetric] tt[symmetric] False "1.prems"]]
      show ?thesis
        using Some a tt False by (subst (1 2) empty_queue_loop.simps) simp
    qed
  qed
qed

lemma EmptyQueue_follows:
  assumes "\<not> THROW_ON_CLIENT_ERRORS lenient" and "THROW_ON_CLIENT_ERRORS strict"
  shows "strict_follows bi w snd (EmptyQueue env lenient w) (EmptyQueue env strict w)"
proof -
  obtain t wa where tt: "time_time env w = (t, wa)" by (cases "time_time env w")
  show ?thesis
    using strict_follows_base[OF time_time_frame(2,3)[OF tt]
            empty_queue_loop_follows[OF assms, of bi wa env t "[]"]]
    by (simp add: EmptyQueue_def tt)
qed

lemma join_processes_follows:
  assumes "\<not> THROW_ON_CLIENT_ERRORS lenient" and "THROW_ON_CLIENT_ERRORS strict"
  shows "strict_follows bi w (\<lambda>w. w) (join_processes env lenient s ps w)
           (join_processes env strict s ps w)"
proof (induction ps arbitrary: w)
  case Nil
  show ?case using strict_follows_return[of bi "\<lambda>w. w" w] by simp
next
  case (Cons p ps)
  obtain t wa where tt: "time_time env w = (t, wa)" by (cases "time_time env w")
  let ?m = "ProcessDuration (t - s)"
  let ?wm = "note_measured ?m wa"
  have wm: "warnings ?wm = warnings w" "measured ?wm = measured w @ [?m]"
    using time_time_frame(2,3)[OF tt] by simp_all
  show ?case
  proof (cases "t - s > FAIL_LATENCY")
    case True
    then show ?thesis
      using strict_follows_overload[OF assms wm(2) wm(1), of bi] by (simp add: tt)
  next
    case False
    then have "\<not> is_overload bi ?m" by simp
    from strict_follows_after[OF wm(2) wm(1) this Cons.IH[of ?wm]] False
    show ?thesis by (simp add: tt)
  qed
qed

lemma BurstRequestsOverTime_follows:
  assumes "\<not> THROW_ON_CLIENT_ERRORS lenient" and "THROW_ON_CLIENT_ERRORS strict"
    and "b \<noteq> 0"
  shows "strict_follows b w snd (BurstRequestsOverTime env lenient c d b w)
           (BurstRequestsOverTime env strict c d b w)"
proof -
  let ?last = "\<lambda>fl rs w5. if rs = [] then EmptyQueue env fl w5 else Inr (rs, w5)"
  let ?join = "\<lambda>fl ps (rs, w3).
     case time_time env w3 of
       (s, w4) \<Rightarrow> (case join_processes env fl s ps w4 of
                     Inl e \<Rightarrow> Inl e | Inr w5 \<Rightarrow> ?last fl rs w5)"
  let ?drain = "\<lambda>fl (ps, w2).
     case EmptyQueue env fl w2 of Inl e \<Rightarrow> Inl e | Inr x \<Rightarrow> ?join fl ps x"
  obtain t0 wa where t0: "time_time env w = (t0, wa)" by (cases "time_time env w")
  have unfold: "BurstRequestsOverTime env fl c d b w =
      (case send_bursts env fl c b (nat \<lfloor>real_of_int d / b\<rfloor>) [] (wa\<lparr>queue := []\<rparr>) of
         Inl e \<Rightarrow> Inl e | Inr x \<Rightarrow> ?drain fl x)" for fl
    using assms(3)
    by (simp add: BurstRequestsOverTime_def t0 fdiv_def Let_def split: sum.split prod.split)
  have last: "strict_follows b w5 snd (?last lenient rs w5) (?last strict rs w5)" for rs w5
    using EmptyQueue_follows[OF assms(1,2), of b w5 env]
    by (simp add: strict_follows_return_pair)
  have join: "strict_follows b (snd x) snd (?join lenient ps x) (?join strict ps x)" for ps x
  proof -
    obtain rs w3 where x: "x = (rs, w3)" by (cases x)
    obtain s w4 where tt: "time_time env w3 = (s, w4)" by (cases "time_time env w3")
    have "strict_follows b w3 snd
            (case join_processes env lenient s ps w4 of
               Inl e \<Rightarrow> Inl e | Inr w5 \<Rightarrow> ?last lenient rs w5)
            (case join_processes env strict s ps w4 of
               Inl e \<Rightarrow> Inl e | Inr w5 \<Rightarrow> ?last strict rs w5)"
      by (rule strict_follows_then
                [OF strict_follows_base[OF time_time_frame(2,3)[OF tt]
                      join_processes_follows[OF assms(1,2)]] last])
    then show ?thesis by (simp add: x tt)
  qed
  have drain: "strict_follows b (snd y) snd (?drain lenient y) (?drain strict y)" for y
  proof -
    obtain ps w2 where y: "y = (ps, w2)" by (cases y)
    have "strict_follows b w2 snd
            (case EmptyQueue env lenient w2 of Inl e \<Rightarrow> Inl e | Inr x \<Rightarrow> ?join lenient ps x)
            (case EmptyQueue env strict w2 of Inl e \<Rightarrow> Inl e | Inr x \<Rightarrow> ?join strict ps x)"
      by (rule strict_follows_then[OF EmptyQueue_follows[OF assms(1,2)] join])
    then show ?thesis by (simp add: y)
  qed
  have "warnings (wa\<lparr>queue := []\<rparr>) = warnings w" "measured (wa\<lparr>queue := []\<rparr>) = measured w"
    using time_time_frame(2,3)[OF t0] by simp_all
  from strict_follows_then[OF strict_follows_base[OF this send_bursts_follows[OF assms(1,2)]] drain]
  show ?thesis unfolding unfold .
qed

text \<open>The definitions that the examples of the scheduler unfold.\<close>

lemmas burst_eval = BurstRequestsOverTime_def fdiv_def Let_def time_time_def time_sleep_def
  note_measured_def SendParallelRequests_def start_process_def TimePromptsForModel_def
  SendPrompt_def EmptyQueue_def EncounterClientError_def wait_for_next_burst.simps
  empty_queue_loop.simps example_environment_def example_world_def example_flags_def
  QUEUE_WAIT_TIME_def FAIL_LATENCY_def numeral_2_eq_2 numeral_3_eq_3
section \<open>The prerequisite check\<close>

text \<open>
  Claim C6 at \<open>ai_starting_requests = 5\<close> and \<open>ai_max_requests = 0\<close>: the maximum is
  set and less than the start, and \<open>CheckPrerequisites\<close> raises nothing, since a zero
  is false in its condition, although its own message says that the maximum must be
  \<open>None\<close> or at least the start. The search then takes 6, the start plus one, as its
  maximum.
\<close>

theorem CheckPrerequisites_accepts_zero:
  "CheckPrerequisites
     \<lparr>STARTING_REQUESTS = 5, MAX_PARALLEL_REQUESTS = Some 0, TEST_DURATION = 60,
      BURST_TIME = 1, THROW_ON_CLIENT_ERRORS = False\<rparr> = Inr ()
   \<and> max_requests
     \<lparr>STARTING_REQUESTS = 5, MAX_PARALLEL_REQUESTS = Some 0, TEST_DURATION = 60,
      BURST_TIME = 1, THROW_ON_CLIENT_ERRORS = False\<rparr> = 6"
  by (simp add: CheckPrerequisites_def max_requests_def truthy_def)

section \<open>The aggregator\<close>

text \<open>
  Claim C5. With a burst interval other than zero and at least one success,
  \<open>_AggregateResponses\<close> returns, in this order: exactly when there are failures, the
  median of the failure durations and their count; then the success rate
  \<open>successes / (successes + failures) * 100\<close>, the number of successes, and the
  standard median and the arithmetic mean of the success durations. The duration of a
  response is its end time minus its start time. All samples carry the same metadata:
  the model's, updated with the level, the test duration, the burst time and the
  effective rate \<open>level / burst time\<close>. That \<open>standard_median\<close> is a median is the
  lemma \<open>standard_median_splits\<close>.
\<close>

theorem AggregateResponses_statistics:
  assumes "BURST_TIME fl \<noteq> 0" and "succ \<noteq> []"
  shows "AggregateResponses fl succ failed model_metadata n =
     (let md = update_metadata fl n (real_of_int n / BURST_TIME fl) model_metadata in
      Inr ((if failed = [] then []
            else [Sample ''failure_median_response_time''
                    (standard_median (map (\<lambda>r. end_time r - start_time r) failed))
                    ''seconds'' md,
                  Sample ''num_failures'' (real (length failed)) ''count'' md])
           @ [Sample ''success_rate''
                (real (length succ) / real (length succ + length failed) * 100)
                ''percent'' md,
              Sample ''num_responses'' (real (length succ)) ''count'' md,
              Sample ''median_response_time''
                (standard_median (map (\<lambda>r. end_time r - start_time r) succ))
                ''seconds'' md,
              Sample ''mean_response_time''
                (arithmetic_mean (map (\<lambda>r. end_time r - start_time r) succ))
                ''seconds'' md]))"
proof -
  have "(\<lambda>r. end_time r - start_time r) = duration"
    by (simp add: fun_eq_iff duration_def)
  then show ?thesis
    using assms
    by (simp add: AggregateResponses_nonempty failure_statistics_def success_statistics_def
          report_metadata_def Let_def)
qed

text \<open>
  The example of the specification: three successes that took 1, 2 and 3 seconds and
  one failure that took 96 seconds, each with a start time of its own, give a success
  rate of 75, a median of 2 and a failure median of 96.
\<close>

theorem AggregateResponses_statistics_witness:
  "AggregateResponses
     \<lparr>STARTING_REQUESTS = 5, MAX_PARALLEL_REQUESTS = None, TEST_DURATION = 60,
      BURST_TIME = 1, THROW_ON_CLIENT_ERRORS = False\<rparr>
     [\<lparr>start_time = 10, end_time = 13, response = None, status = 0\<rparr>,
      \<lparr>start_time = 20, end_time = 21, response = None, status = 0\<rparr>,
      \<lparr>start_time = 5, end_time = 7, response = None, status = 0\<rparr>]
     [\<lparr>start_time = 4, end_time = 100, response = None, status = 0\<rparr>]
     [] 5 =
   (let md = [(''parallel_requests'', MInt 5), (''test_duration'', MInt 60),
              (''burst_time'', MFloat 1), (''effective_qps'', MFloat 5)] in
    Inr [Sample ''failure_median_response_time'' 96 ''seconds'' md,
         Sample ''num_failures'' 1 ''count'' md,
         Sample ''success_rate'' 75 ''percent'' md,
         Sample ''num_responses'' 3 ''count'' md,
         Sample ''median_response_time'' 2 ''seconds'' md,
         Sample ''mean_response_time'' 2 ''seconds'' md])"
  using AggregateResponses_statistics
          [of "\<lparr>STARTING_REQUESTS = 5, MAX_PARALLEL_REQUESTS = None, TEST_DURATION = 60,
                BURST_TIME = 1, THROW_ON_CLIENT_ERRORS = False\<rparr>"
              "[\<lparr>start_time = 10, end_time = 13, response = None, status = 0\<rparr>,
                \<lparr>start_time = 20, end_time = 21, response = None, status = 0\<rparr>,
                \<lparr>start_time = 5, end_time = 7, response = None, status = 0\<rparr>]"
              "[\<lparr>start_time = 4, end_time = 100, response = None, status = 0\<rparr>]" "[]" 5]
  by (simp add: standard_median_def arithmetic_mean_def update_metadata_def)

section \<open>A failure at the first level\<close>

text \<open>
  Claim C1 at the default flags, when the run at the first level returns a single
  response and that response is an error that took one second. The report has the two
  failure samples and no \<open>max_throughput\<close>, and it also has \<open>success_rate\<close> (50),
  \<open>num_responses\<close> (1), \<open>median_response_time\<close> and \<open>mean_response_time\<close>, although
  no request succeeded: the function hands all responses of the run to
  \<open>_AggregateResponses\<close> as the successful ones.
\<close>

theorem first_level_failure_reports_successes:
  "fst (FindMaxThroughput (example_flags None) (\<lambda>l. Inr [error_response 1]) []) =
     Inr [Sample ''failure_median_response_time'' 1 ''seconds'' (example_metadata 5),
          Sample ''num_failures'' 1 ''count'' (example_metadata 5),
          Sample ''success_rate'' 50 ''percent'' (example_metadata 5),
          Sample ''num_responses'' 1 ''count'' (example_metadata 5),
          Sample ''median_response_time'' 1 ''seconds'' (example_metadata 5),
          Sample ''mean_response_time'' 1 ''seconds'' (example_metadata 5)]"
  by (simp add: eval_defs ex_defs)

section \<open>The report after a clean level\<close>

text \<open>
  Claim C2, as the code has it. Let the levels of the range begin with the levels
  \<open>pre\<close>, all of which ran without a failed response, the last of them with at least
  one response; and let the search end there, either because no level remains (then
  \<open>fs\<close> is empty) or because the next level returned the failed responses \<open>fs\<close>.
  Then the report is labelled with the last clean level and holds: when \<open>fs\<close> is not
  empty, the median duration and the number of the failed responses \<open>fs\<close> of the
  breaking run; the success rate \<open>n / (n + length fs) * 100\<close>, with \<open>n\<close> the number of
  responses of the last clean run; that number, and the median and the mean of the
  durations of the last clean run; and \<open>max_throughput\<close>, the last clean level divided
  by the burst interval. The responses of the breaking run that did not fail
  contribute to nothing.
\<close>

theorem report_after_clean_level:
  assumes "BURST_TIME fl \<noteq> 0"
    and "py_range (STARTING_REQUESTS fl) (max_requests fl) 3 = pre @ rest"
    and "pre \<noteq> []"
    and "\<forall>l\<in>set pre. burst l = Inr (out l) \<and> filter failed_response (out l) = []"
    and "out (last pre) \<noteq> []"
    and "rest = [] \<and> fs = []
         \<or> (\<exists>L post rs. rest = L # post \<and> burst L = Inr rs
               \<and> fs = filter failed_response rs \<and> fs \<noteq> [])"
  shows "fst (FindMaxThroughput fl burst md) =
     Inr (failure_statistics (report_metadata fl md (last pre)) (map duration fs)
          @ success_statistics (report_metadata fl md (last pre))
              (map duration (out (last pre))) (length fs)
          @ [Sample ''max_throughput'' (real_of_int (last pre) / BURST_TIME fl) ''count''
               (report_metadata fl md (last pre))])"
  using assms by (rule FindMaxThroughput_after_clean)

text \<open>
  The theorem at a maximum of 11: level 5 returns two successes, level 8 an error and
  a success.
\<close>

theorem report_after_clean_level_witness:
  "BURST_TIME (example_flags (Some 11)) \<noteq> 0
   \<and> py_range (STARTING_REQUESTS (example_flags (Some 11)))
         (max_requests (example_flags (Some 11))) 3 = [5] @ [8]
   \<and> filter failed_response [ok_response 1, ok_response 3] = []
   \<and> filter failed_response [error_response 2, ok_response 4] = [error_response 2]
   \<and> fst (FindMaxThroughput (example_flags (Some 11))
          (\<lambda>l. if l = 5 then Inr [ok_response 1, ok_response 3]
               else Inr [error_response 2, ok_response 4]) []) =
     Inr [Sample ''failure_median_response_time'' 2 ''seconds'' (example_metadata 5),
          Sample ''num_failures'' 1 ''count'' (example_metadata 5),
          Sample ''success_rate'' (200 / 3) ''percent'' (example_metadata 5),
          Sample ''num_responses'' 2 ''count'' (example_metadata 5),
          Sample ''median_response_time'' 2 ''seconds'' (example_metadata 5),
          Sample ''mean_response_time'' 2 ''seconds'' (example_metadata 5),
          Sample ''max_throughput'' 5 ''count'' (example_metadata 5)]"
  using report_after_clean_level
          [of "example_flags (Some 11)" "[5]" "[8]"
              "\<lambda>l. if l = 5 then Inr [ok_response 1, ok_response 3]
                   else Inr [error_response 2, ok_response 4]"
              "\<lambda>l. [ok_response 1, ok_response 3]"
              "[error_response 2]" "[]"]
  by (simp add: ex_defs py_range.simps failure_statistics_def success_statistics_def
        standard_median_def arithmetic_mean_def duration_def report_metadata_def
        update_metadata_def)

text \<open>
  Claim C2 as stated fails: level 5 returns one success and no failure, level 8 an
  error of 2 seconds; the report holds that error's duration as
  \<open>failure_median_response_time\<close>, counts it in \<open>num_failures\<close>, and gives a success
  rate of 50, none of which comes from the run at level 5.
\<close>

theorem report_after_clean_level_counterexample:
  "fst (FindMaxThroughput (example_flags (Some 11))
          (\<lambda>l. if l = 5 then Inr [ok_response 1] else Inr [error_response 2, ok_response 4]) []) =
     Inr [Sample ''failure_median_response_time'' 2 ''seconds'' (example_metadata 5),
          Sample ''num_failures'' 1 ''count'' (example_metadata 5),
          Sample ''success_rate'' 50 ''percent'' (example_metadata 5),
          Sample ''num_responses'' 1 ''count'' (example_metadata 5),
          Sample ''median_response_time'' 1 ''seconds'' (example_metadata 5),
          Sample ''mean_response_time'' 1 ''seconds'' (example_metadata 5),
          Sample ''max_throughput'' 5 ''count'' (example_metadata 5)]"
  by (simp add: eval_defs ex_defs)

section \<open>The level before the breaking level\<close>




section \<open>A maximum equal to the start\<close>

text \<open>
  Claim C4 at \<open>ai_starting_requests = 5\<close> and \<open>ai_max_requests = 5\<close>, a setting the
  prerequisite check accepts and the help of the flag describes as a test at level 5
  only: the range is empty, so whatever the bursts would return no level is tried
  (the log has no \<open>'Sending %s qps'\<close> line) and the report is empty.
\<close>

theorem no_level_at_equal_maximum:
  "FindMaxThroughput (example_flags (Some 5)) burst [] = (Inr [], [FirstQpsHadErrors])"
  by (simp add: eval_defs ex_defs)

section \<open>A clean run without responses\<close>

text \<open>
  Claim C10. Let the levels of the range begin with the levels \<open>pre\<close>, all of which
  ran without a failed response, the last of them without any response; and let the
  search end there, either because no level remains (then \<open>rs\<close> is empty and no failed
  response was seen at all) or because the next level returned \<open>rs\<close> with a failed
  response among them. Then \<open>FindMaxThroughput\<close> takes the branch of the warning
  \<open>'The very first QPS tried had errors'\<close>: its report is what \<open>_AggregateResponses\<close>
  makes of \<open>rs\<close> and its failed responses, labelled with the start, and holds no
  \<open>max_throughput\<close> sample.
\<close>

theorem empty_clean_run_degraded:
  assumes "py_range (STARTING_REQUESTS fl) (max_requests fl) 3 = pre @ rest"
    and "pre \<noteq> []"
    and "\<forall>l\<in>set pre. burst l = Inr (out l) \<and> filter failed_response (out l) = []"
    and "out (last pre) = []"
    and "rest = [] \<and> rs = []
         \<or> (\<exists>L post. rest = L # post \<and> burst L = Inr rs \<and> filter failed_response rs \<noteq> [])"
  shows "fst (FindMaxThroughput fl burst md) =
           AggregateResponses fl rs (filter failed_response rs) md (STARTING_REQUESTS fl)
     \<and> last (snd (FindMaxThroughput fl burst md)) = FirstQpsHadErrors
     \<and> (case fst (FindMaxThroughput fl burst md) of
           Inl e \<Rightarrow> True
         | Inr samples \<Rightarrow> ''max_throughput'' \<notin> set (map metric samples))"
proof -
  let ?init = "\<lparr>burst_requests = STARTING_REQUESTS fl, responses = [],
               failed_responses = [], last_responses = []\<rparr>"
  let ?st = "\<lparr>burst_requests = last pre, responses = out (last pre),
              failed_responses = [], last_responses = out (last pre)\<rparr>"
  have loop: "search_loop burst (py_range (STARTING_REQUESTS fl) (max_requests fl) 3) ?init []
                = search_loop burst rest ?st ([] @ map SendingQps pre)"
    unfolding assms(1) using assms(3,2) by (rule search_loop_clean_prefix)
  have "\<exists>st lg. search_loop burst (py_range (STARTING_REQUESTS fl) (max_requests fl) 3) ?init []
                  = (Inr st, lg)
          \<and> last_responses st = [] \<and> responses st = rs
          \<and> failed_responses st = filter failed_response rs"
    using assms(5)
  proof
    assume "rest = [] \<and> rs = []"
    then show ?thesis using loop assms(4) by simp
  next
    assume "\<exists>L post. rest = L # post \<and> burst L = Inr rs \<and> filter failed_response rs \<noteq> []"
    then show ?thesis using loop assms(4) by (auto simp: Let_def)
  qed
  then obtain st lg where
    run: "search_loop burst (py_range (STARTING_REQUESTS fl) (max_requests fl) 3) ?init []
            = (Inr st, lg)"
    and st: "last_responses st = []" "responses st = rs"
      "failed_responses st = filter failed_response rs"
    by blast
  have fmt: "FindMaxThroughput fl burst md =
      (AggregateResponses fl rs (filter failed_response rs) md (STARTING_REQUESTS fl),
       lg @ [FirstQpsHadErrors])"
    using FindMaxThroughput_degraded[OF run st(1), of md] st by simp
  show ?thesis
    using metric_AggregateResponses[of fl rs "filter failed_response rs" md "STARTING_REQUESTS fl"]
    by (auto simp: fmt split: sum.split)
qed

text \<open>
  The theorem when the maximum is unset and the only level tried, 5, returns no
  response: the report is empty.
\<close>

theorem empty_clean_run_degraded_witness:
  "py_range (STARTING_REQUESTS (example_flags None)) (max_requests (example_flags None)) 3
     = [5] @ []
   \<and> FindMaxThroughput (example_flags None) (\<lambda>l. Inr []) []
       = (Inr [], [SendingQps 5, FirstQpsHadErrors])"
  using empty_clean_run_degraded
          [of "example_flags None" "[5]" "[]" "\<lambda>l. Inr []" "\<lambda>l. []" "[]" "[]"]
  by (simp add: eval_defs ex_defs)

section \<open>The worker\<close>

text \<open>
  Claim C7, as the code has it. When the call to the model returns, or raises
  \<open>errors.Resource.GetError\<close>, the worker appends exactly one response to the queue
  and raises nothing; the response holds the two clock readings and its status is 1
  for the error and 0 otherwise. When the call raises any other exception, that
  exception leaves the worker and the queue is unchanged.
\<close>

theorem worker_enqueues_one:
  "((\<forall>e. model_send = Inl e \<longrightarrow> (\<exists>m. e = GetError m))
      \<longrightarrow> (\<exists>r. TimePromptsForModel model_send t_start t_end q = (Inr (), q @ [r])
             \<and> start_time r = t_start \<and> end_time r = t_end
             \<and> status r = (if \<exists>m. model_send = Inl (GetError m) then 1 else 0)))
   \<and> (\<forall>e. model_send = Inl e \<and> (\<forall>m. e \<noteq> GetError m)
          \<longrightarrow> TimePromptsForModel model_send t_start t_end q = (Inl e, q))"
proof (cases model_send)
  case (Inr rs)
  then show ?thesis by (simp add: TimePromptsForModel_def SendPrompt_def)
next
  case (Inl e)
  then show ?thesis
    by (cases e) (simp_all add: TimePromptsForModel_def SendPrompt_def)
qed

text \<open>The theorem for a call that raises \<open>GetError\<close> and for a call that returns.\<close>

theorem worker_enqueues_one_witness:
  "TimePromptsForModel (Inl (GetError ''unavailable'')) 3 7 [] =
     (Inr (), [\<lparr>start_time = 3, end_time = 7, response = None, status = 1\<rparr>])
   \<and> TimePromptsForModel (Inr [''a reply'']) 3 7 [] =
     (Inr (), [\<lparr>start_time = 3, end_time = 7, response = None, status = 0\<rparr>])"
  using worker_enqueues_one [of "Inl (GetError ''unavailable'')" 3 7 "[]"]
        worker_enqueues_one [of "Inr [''a reply'']" 3 7 "[]"]
  by (simp add: TimePromptsForModel_def SendPrompt_def)

text \<open>
  Claim C7 as stated fails: a call to the model that raises an exception other than
  \<open>GetError\<close> ends the worker with that exception and with nothing on the queue.
\<close>

theorem worker_other_exception_counterexample:
  "TimePromptsForModel (Inl (OtherException ''timeout'')) 3 7 [] =
     (Inl (OtherException ''timeout''), [])"
  by (simp add: TimePromptsForModel_def SendPrompt_def)

section \<open>The number of outcomes of a run\<close>

text \<open>
  Claim C9. For a number of requests and a duration that are not negative and a
  positive burst interval, whatever the processes, the model and the clock do, a call
  of \<open>BurstRequestsOverTime\<close> that returns a list returns at most
  \<open>concurrency * goal_bursts\<close> outcomes, with \<open>goal_bursts\<close> the floor of the duration
  divided by the burst interval.
\<close>

theorem outcomes_bounded:
  assumes "BurstRequestsOverTime env fl concurrency total_duration burst_interval w
             = Inr (outcomes, w1)"
    and "0 \<le> concurrency" and "0 \<le> total_duration" and "0 < burst_interval"
  shows "int (length outcomes)
           \<le> concurrency * \<lfloor>real_of_int total_duration / burst_interval\<rfloor>"
proof -
  let ?g = "\<lfloor>real_of_int total_duration / burst_interval\<rfloor>"
  have "0 \<le> ?g" using assms(3,4) by simp
  then have "int (nat ?g * nat concurrency) = concurrency * ?g"
    using assms(2) by simp
  moreover have "length outcomes \<le> nat ?g * nat concurrency"
    by (rule BurstRequestsOverTime_count(2)[OF assms(1)])
  ultimately show ?thesis by linarith
qed

text \<open>
  The theorem for one burst of three requests: the third process ends with an
  exception that the worker does not catch, and two outcomes are returned.
\<close>

theorem outcomes_bounded_witness:
  "BurstRequestsOverTime example_environment (example_flags None) 3 1 1 example_world =
     Inr ([\<lparr>start_time = 0, end_time = 1, response = None, status = 0\<rparr>,
           \<lparr>start_time = 1, end_time = 2, response = None, status = 1\<rparr>],
          \<lparr>now = 11 / 2, tick = 11, started = 3, queue = [], warnings = [],
             measured = [StartupDuration (1 / 2), QueueDuration (1 / 2), QueueDuration 1,
                         ProcessDuration (1 / 2), ProcessDuration 1,
                         ProcessDuration (3 / 2)]\<rparr>)
   \<and> int (length [\<lparr>start_time = 0, end_time = 1, response = None, status = 0\<rparr>,
                   \<lparr>start_time = 1, end_time = 2, response = None, status = (1::int)\<rparr>])
         \<le> 3 * \<lfloor>real_of_int 1 / 1\<rfloor>"
proof -
  have run: "BurstRequestsOverTime example_environment (example_flags None) 3 1 1 example_world =
     Inr ([\<lparr>start_time = 0, end_time = 1, response = None, status = 0\<rparr>,
           \<lparr>start_time = 1, end_time = 2, response = None, status = 1\<rparr>],
          \<lparr>now = 11 / 2, tick = 11, started = 3, queue = [], warnings = [],
             measured = [StartupDuration (1 / 2), QueueDuration (1 / 2), QueueDuration 1,
                         ProcessDuration (1 / 2), ProcessDuration 1,
                         ProcessDuration (3 / 2)]\<rparr>)"
    by (simp add: burst_eval)
  from outcomes_bounded[OF run] run show ?thesis by simp
qed

section \<open>Client errors\<close>

text \<open>
  Claim C8. For a burst interval other than zero, take the same call of
  \<open>BurstRequestsOverTime\<close>, in the same surroundings, once without and once with
  \<open>ai_throw_on_client_errors\<close>. Without the flag the call returns its results; on the
  way it measures the durations \<open>durations\<close> (the launch time of each burst, the time
  spent emptying the queue after each item, the time spent joining after each
  process), and it logs one warning, in order, for each of them that is a client
  overload: a launch time greater than the burst interval, a queue time greater than
  \<open>_QUEUE_WAIT_TIME\<close>, a join time greater than \<open>_FAIL_LATENCY\<close>. With the flag the call
  raises \<open>RunError\<close>, with the message of the first overload among these durations,
  exactly when one of them is an overload; when none is, it returns the same results
  in the same state.
\<close>

theorem client_error_policy:
  assumes "burst_interval \<noteq> 0"
    and "\<not> THROW_ON_CLIENT_ERRORS lenient" and "THROW_ON_CLIENT_ERRORS strict"
  shows "\<exists>results w1 durations.
     BurstRequestsOverTime env lenient concurrency dur burst_interval w
       = Inr (results, w1)
     \<and> measured w1 = measured w @ durations
     \<and> warnings w1
         = warnings w
           @ map client_error_message (filter (is_overload burst_interval) durations)
     \<and> BurstRequestsOverTime env strict concurrency dur burst_interval w
       = (case filter (is_overload burst_interval) durations of
            [] \<Rightarrow> Inr (results, w1)
          | m # others \<Rightarrow> Inl (RunError (client_error_message m)))"
  using BurstRequestsOverTime_follows[OF assms(2,3,1), of w env concurrency dur]
  unfolding strict_follows_def by auto

text \<open>
  The theorem for one burst of one request and a burst interval of one second, with
  three clocks. With two seconds at each reading the launch takes two seconds, more
  than the burst interval; with a hundred seconds at the reading after the join the
  join takes a hundred seconds, more than \<open>_FAIL_LATENCY\<close>: in both runs the call
  without the flag logs the warning and returns the outcome, and the call with the
  flag raises. With one second at each reading the launch takes exactly the burst
  interval, which is no overload: both calls return the outcome and log nothing.
\<close>

theorem client_error_policy_witness:
  "BurstRequestsOverTime (example_environment\<lparr>cost := (\<lambda>i. 2)\<rparr>) (example_flags None)
       1 1 1 example_world =
     Inr ([\<lparr>start_time = 0, end_time = 1, response = None, status = 0\<rparr>],
          \<lparr>now = 18, tick = 9, started = 1, queue = [], warnings = [slow_client_msg],
             measured = [StartupDuration 2, QueueDuration 2, ProcessDuration 2]\<rparr>)
   \<and> BurstRequestsOverTime (example_environment\<lparr>cost := (\<lambda>i. 2)\<rparr>)
       ((example_flags None)\<lparr>THROW_ON_CLIENT_ERRORS := True\<rparr>) 1 1 1 example_world =
     Inl (RunError slow_client_msg)
   \<and> BurstRequestsOverTime
       (example_environment\<lparr>cost := (\<lambda>i. if i = 7 then 100 else 1 / 2)\<rparr>)
       (example_flags None) 1 1 1 example_world =
     Inr ([\<lparr>start_time = 0, end_time = 1, response = None, status = 0\<rparr>],
          \<lparr>now = 207 / 2, tick = 8, started = 1, queue = [], warnings = [join_wait_msg],
             measured = [StartupDuration (1 / 2), QueueDuration (1 / 2),
                         ProcessDuration 100]\<rparr>)
   \<and> BurstRequestsOverTime
       (example_environment\<lparr>cost := (\<lambda>i. if i = 7 then 100 else 1 / 2)\<rparr>)
       ((example_flags None)\<lparr>THROW_ON_CLIENT_ERRORS := True\<rparr>) 1 1 1 example_world =
     Inl (RunError join_wait_msg)
   \<and> BurstRequestsOverTime (example_environment\<lparr>cost := (\<lambda>i. 1)\<rparr>) (example_flags None)
       1 1 1 example_world =
     Inr ([\<lparr>start_time = 0, end_time = 1, response = None, status = 0\<rparr>],
          \<lparr>now = 8, tick = 8, started = 1, queue = [], warnings = [],
             measured = [StartupDuration 1, QueueDuration 1, ProcessDuration 1]\<rparr>)
   \<and> BurstRequestsOverTime (example_environment\<lparr>cost := (\<lambda>i. 1)\<rparr>)
       ((example_flags None)\<lparr>THROW_ON_CLIENT_ERRORS := True\<rparr>) 1 1 1 example_world =
     Inr ([\<lparr>start_time = 0, end_time = 1, response = None, status = 0\<rparr>],
          \<lparr>now = 8, tick = 8, started = 1, queue = [], warnings = [],
             measured = [StartupDuration 1, QueueDuration 1, ProcessDuration 1]\<rparr>)"
proof -
  let ?lenient = "example_flags None"
  let ?strict = "(example_flags None)\<lparr>THROW_ON_CLIENT_ERRORS := True\<rparr>"
  let ?slow = "example_environment\<lparr>cost := (\<lambda>i. 2)\<rparr>"
  let ?late = "example_environment\<lparr>cost := (\<lambda>i. if i = 7 then 100 else 1 / 2)\<rparr>"
  let ?exact = "example_environment\<lparr>cost := (\<lambda>i. 1)\<rparr>"
  have fl: "\<not> THROW_ON_CLIENT_ERRORS ?lenient" "THROW_ON_CLIENT_ERRORS ?strict"
    by (simp_all add: example_flags_def)
  have w: "warnings example_world = []" "measured example_world = []"
    by (simp_all add: example_world_def)
  have bounds: "QUEUE_WAIT_TIME = 600" "FAIL_LATENCY = 95"
    by (simp_all add: QUEUE_WAIT_TIME_def FAIL_LATENCY_def)
  have slow: "BurstRequestsOverTime ?slow ?lenient 1 1 1 example_world =
     Inr ([\<lparr>start_time = 0, end_time = 1, response = None, status = 0\<rparr>],
          \<lparr>now = 18, tick = 9, started = 1, queue = [], warnings = [slow_client_msg],
             measured = [StartupDuration 2, QueueDuration 2, ProcessDuration 2]\<rparr>)"
    by (simp add: burst_eval)
  have late: "BurstRequestsOverTime ?late ?lenient 1 1 1 example_world =
     Inr ([\<lparr>start_time = 0, end_time = 1, response = None, status = 0\<rparr>],
          \<lparr>now = 207 / 2, tick = 8, started = 1, queue = [], warnings = [join_wait_msg],
             measured = [StartupDuration (1 / 2), QueueDuration (1 / 2),
                         ProcessDuration 100]\<rparr>)"
    by (simp add: burst_eval)
  have exact: "BurstRequestsOverTime ?exact ?lenient 1 1 1 example_world =
     Inr ([\<lparr>start_time = 0, end_time = 1, response = None, status = 0\<rparr>],
          \<lparr>now = 8, tick = 8, started = 1, queue = [], warnings = [],
             measured = [StartupDuration 1, QueueDuration 1, ProcessDuration 1]\<rparr>)"
    by (simp add: burst_eval)
  have "BurstRequestsOverTime ?slow ?strict 1 1 1 example_world = Inl (RunError slow_client_msg)"
    using client_error_policy[OF _ fl, of 1 ?slow 1 1 example_world] slow w bounds by auto
  moreover
  have "BurstRequestsOverTime ?late ?strict 1 1 1 example_world = Inl (RunError join_wait_msg)"
    using client_error_policy[OF _ fl, of 1 ?late 1 1 example_world] late w bounds by auto
  moreover
  have "BurstRequestsOverTime ?exact ?strict 1 1 1 example_world =
     Inr ([\<lparr>start_time = 0, end_time = 1, response = None, status = 0\<rparr>],
          \<lparr>now = 8, tick = 8, started = 1, queue = [], warnings = [],
             measured = [StartupDuration 1, QueueDuration 1, ProcessDuration 1]\<rparr>)"
    using client_error_policy[OF _ fl, of 1 ?exact 1 1 example_world] exact w bounds by auto
  ultimately show ?thesis using slow late exact by simp
qed
end
